theory Spec2Isabelle
  imports Main
begin

section \<open>The solver terms that Exam.py builds\<close>

text \<open>
  Exam.py states the Countdown numbers game as integer constraints and hands them to an
  optimising SMT solver. The terms it builds are embedded by their meaning in a model:
  an integer array is a function on the integers, \<open>K\<close> is the constant array,
  \<open>Store\<close> an update and \<open>Select\<close> a read; \<open>Abs\<close> is the absolute value
  (\<open>If(x > 0, x, -x)\<close>); \<open>%\<close> and \<open>/\<close> on integer terms are the SMT-LIB
  \<open>mod\<close> and \<open>div\<close>, whose remainder is never negative.
\<close>

definition K :: "int \<Rightarrow> (int \<Rightarrow> int)" where
  "K d = (\<lambda>_. d)"

definition Store :: "(int \<Rightarrow> int) \<Rightarrow> int \<Rightarrow> int \<Rightarrow> (int \<Rightarrow> int)" where
  "Store a i v = a(i := v)"

definition Select :: "(int \<Rightarrow> int) \<Rightarrow> int \<Rightarrow> int" where
  "Select a i = a i"

definition Abs :: "int \<Rightarrow> int" where
  "Abs x = (if x > 0 then x else - x)"

definition z3_div :: "int \<Rightarrow> int \<Rightarrow> int" where
  \<comment> \<open>For a zero divisor the solver may pick any value; every use below is guarded by
      a non-zero divisor.\<close>
  "z3_div k l = (if l \<ge> 0 then k div l else - (k div - l))"

definition z3_mod :: "int \<Rightarrow> int \<Rightarrow> int" where
  "z3_mod k l = k mod (if l \<ge> 0 then l else - l)"

section \<open>Variables of one model\<close>

text \<open>
  \<open>ids\<close>, \<open>steps\<close> and \<open>vals\<close> are read at the positions 0..5, \<open>ops\<close> at 0..4
  (\<open>ops[k-1]\<close> is the operator of step k). The resilient encoding adds \<open>last_op\<close>, one
  \<open>att_res\<close> and one \<open>att_dist\<close> for each attack 1..10, and \<open>worst_dist\<close>.
\<close>

record assignment =
  ids :: "nat \<Rightarrow> int"
  steps :: "nat \<Rightarrow> bool"
  ops :: "nat \<Rightarrow> int"
  vals :: "nat \<Rightarrow> int"

record resilient_assignment = assignment +
  last_op :: int
  att_res :: "int \<Rightarrow> int"
  att_dist :: "int \<Rightarrow> int"
  worst_dist :: int

section \<open>Constraints shared by CountingStrategy and CountingStrategyResilient\<close>

definition numbers_arr :: "int list \<Rightarrow> (int \<Rightarrow> int)" where
  \<comment> \<open>\<open>arr = K(IntSort(), 0); for i, v in enumerate(numbers): arr = Store(arr, i, v)\<close>\<close>
  "numbers_arr numbers = foldl (\<lambda>arr (i, v). Store arr (int i) v) (K 0) (enumerate 0 numbers)"

definition apply_c :: "int \<Rightarrow> int \<Rightarrow> int \<Rightarrow> bool \<Rightarrow> int \<Rightarrow> bool" where
  \<comment> \<open>The inner function \<open>apply\<close> of both solvers.\<close>
  "apply_c op_now val_now val_next step n_used =
     (if step then
        (if op_now = 0 then val_next = val_now + n_used
         else if op_now = 1 then val_next = val_now - n_used
         else if op_now = 2 then val_next = val_now * n_used
         else n_used \<noteq> 0 \<and> z3_mod val_now n_used = 0 \<and> val_next = z3_div val_now n_used)
      else val_next = val_now)"

definition c_initial :: "int list \<Rightarrow> 'a assignment_scheme \<Rightarrow> bool" where
  "c_initial numbers a \<longleftrightarrow> vals a 0 = Select (numbers_arr numbers) (ids a 0)"

definition c_ids :: "'a assignment_scheme \<Rightarrow> bool" where
  "c_ids a \<longleftrightarrow> (\<forall>i \<in> set [0..<6]. ids a i \<ge> 0 \<and> ids a i < 6)"

definition c_ops :: "'a assignment_scheme \<Rightarrow> bool" where
  "c_ops a \<longleftrightarrow> (\<forall>i \<in> set [0..<5]. ops a i \<ge> 0 \<and> ops a i < 4)"

definition c_prefix :: "'a assignment_scheme \<Rightarrow> bool" where
  "c_prefix a \<longleftrightarrow> (\<forall>i \<in> set [0..<6]. i \<noteq> 0 \<longrightarrow> (steps a i \<longrightarrow> steps a (i - 1)))"

definition c_unique :: "'a assignment_scheme \<Rightarrow> bool" where
  "c_unique a \<longleftrightarrow>
     (\<forall>i \<in> set [0..<6]. \<forall>j \<in> set [i + 1..<6]. steps a i \<and> steps a j \<longrightarrow> ids a i \<noteq> ids a j)"

definition c_transition :: "int list \<Rightarrow> 'a assignment_scheme \<Rightarrow> bool" where
  "c_transition numbers a \<longleftrightarrow>
     (\<forall>k \<in> set [1..<6].
        if steps a k
        then apply_c (ops a (k - 1)) (vals a (k - 1)) (vals a k) True
               (Select (numbers_arr numbers) (ids a k))
        else vals a k = vals a (k - 1))"

definition c_step0 :: "'a assignment_scheme \<Rightarrow> bool" where
  "c_step0 a \<longleftrightarrow> steps a 0 = True"

definition CountingStrategy_constraints :: "int list \<Rightarrow> 'a assignment_scheme \<Rightarrow> bool" where
  \<comment> \<open>Everything \<open>CountingStrategy\<close> adds to the solver, in the order of the source.\<close>
  "CountingStrategy_constraints numbers a \<longleftrightarrow>
     c_initial numbers a \<and> c_ids a \<and> c_ops a \<and> c_prefix a \<and> c_unique a \<and>
     c_transition numbers a \<and> c_step0 a"

section \<open>Objectives and the optimiser\<close>

definition used_count :: "'a assignment_scheme \<Rightarrow> int" where
  "used_count a = sum_list (map (\<lambda>k. if steps a k then 1 else 0) [0..<6])"

definition dist_to_target :: "int \<Rightarrow> 'a assignment_scheme \<Rightarrow> int" where
  "dist_to_target target a = Abs (target - vals a 5)"

definition second_objective :: "int \<Rightarrow> 'a assignment_scheme \<Rightarrow> int" where
  \<comment> \<open>\<open>If(dist_to_target == 0, used_count, 0)\<close>\<close>
  "second_objective target a = (if dist_to_target target a = 0 then used_count a else 0)"

text \<open>
  Exam.py does not search: it hands the constraints and two objectives to \<open>Optimize\<close>
  (\<open>opt.minimize\<close> twice, then \<open>opt.check()\<close> and \<open>opt.model()\<close>), and the search
  itself is not part of the source. What it returns is taken from the specification's
  Lexicographic Optimizer: an assignment of the feasible region that minimises the objectives
  in strict priority order, the order of the two \<open>minimize\<close> calls.
\<close>

definition minimal :: "('a \<Rightarrow> bool) \<Rightarrow> ('a \<Rightarrow> int) \<Rightarrow> 'a \<Rightarrow> bool" where
  \<comment> \<open>Modelled from the spec: one objective of the Lexicographic Optimizer, whose search
      (\<open>Optimize\<close>) is not under src/: \<open>m\<close> is in the region \<open>F\<close> and no assignment of
      the region has a smaller \<open>f\<close>.\<close>
  "minimal F f m \<longleftrightarrow> F m \<and> (\<forall>b. F b \<longrightarrow> f m \<le> f b)"

definition lex_minimal :: "('a \<Rightarrow> bool) \<Rightarrow> ('a \<Rightarrow> int) \<Rightarrow> ('a \<Rightarrow> int) \<Rightarrow> 'a \<Rightarrow> bool" where
  \<comment> \<open>Modelled from the spec: the Lexicographic Optimizer, whose search (\<open>Optimize\<close>) is
      not under src/: \<open>m\<close> minimises the first objective \<open>f\<close> over the region, and the
      second objective \<open>g\<close> over the assignments of the region on which \<open>f\<close> is at that
      minimum.\<close>
  "lex_minimal F f g m \<longleftrightarrow> minimal F f m \<and> minimal (\<lambda>b. F b \<and> f b = f m) g m"

definition CountingStrategy_sat :: "int list \<Rightarrow> bool" where
  \<comment> \<open>\<open>opt.check() == sat\<close>\<close>
  "CountingStrategy_sat numbers \<longleftrightarrow> (\<exists>a :: assignment. CountingStrategy_constraints numbers a)"

definition CountingStrategy_model :: "int list \<Rightarrow> int \<Rightarrow> assignment \<Rightarrow> bool" where
  \<comment> \<open>\<open>m = opt.model()\<close>\<close>
  "CountingStrategy_model numbers target m \<longleftrightarrow>
     lex_minimal (CountingStrategy_constraints numbers)
       (dist_to_target target) (second_objective target) m"

section \<open>The printed report\<close>

datatype py_error = KeyError

definition OPERATION_IDS :: "int \<rightharpoonup> string" where
  "OPERATION_IDS = [0 \<mapsto> ''+'', 1 \<mapsto> ''-'', 2 \<mapsto> ''*'', 3 \<mapsto> ''/'']"

function str_nat :: "nat \<Rightarrow> string" where
  "str_nat n =
     (if n < 10 then [char_of (48 + n)] else str_nat (n div 10) @ [char_of (48 + n mod 10)])"
  by pat_completeness auto
termination
  by (relation "measure id") auto

definition str :: "int \<Rightarrow> string" where
  "str i = (if i < 0 then ''-'' @ str_nat (nat (- i)) else str_nat (nat i))"

fun step_lines :: "int list \<Rightarrow> 'a assignment_scheme \<Rightarrow> nat list \<Rightarrow> py_error + string list" where
  \<comment> \<open>\<open>for j in range(1, 6)\<close>: one line for each executed step, \<open>break\<close> at the first
      step that is not executed. A missing key of \<open>OPERATION_IDS\<close> raises.\<close>
  "step_lines numbers m [] = Inr []"
| "step_lines numbers m (j # js) =
     (if steps m j then
        (case OPERATION_IDS (ops m (j - 1)) of
           None \<Rightarrow> Inl KeyError
         | Some operator \<Rightarrow>
             (case step_lines numbers m js of
                Inl e \<Rightarrow> Inl e
              | Inr ls \<Rightarrow>
                  Inr ((''Step '' @ str (int j) @ '': operation '' @ operator @ '' with number ''
                        @ str (Select (numbers_arr numbers) (ids m j)) @ '' -> result ''
                        @ str (vals m j)) # ls)))
      else Inr [])"

definition report :: "int list \<Rightarrow> int \<Rightarrow> 'a assignment_scheme \<Rightarrow> py_error + string list" where
  "report numbers target m =
     (case step_lines numbers m [1..<6] of
        Inl e \<Rightarrow> Inl e
      | Inr ls \<Rightarrow>
          Inr ([''Initial number : '' @ str (Select (numbers_arr numbers) (ids m 0))] @ ls @
               [''Final number : '' @ str (vals m 5),
                ''Distance from goal: '' @ str (dist_to_target target m)]))"

definition CountingStrategy_answer :: "int list \<Rightarrow> int \<Rightarrow> assignment option \<Rightarrow> bool" where
  \<comment> \<open>What the solver answers: a model when \<open>opt.check() == sat\<close>, no model otherwise.\<close>
  "CountingStrategy_answer numbers target answer \<longleftrightarrow>
     (case answer of
        Some m \<Rightarrow> CountingStrategy_model numbers target m
      | None \<Rightarrow> \<not> CountingStrategy_sat numbers)"

definition print_report ::
  "int list \<Rightarrow> int \<Rightarrow> 'a assignment_scheme option \<Rightarrow> py_error + string list" where
  \<comment> \<open>\<open>if opt.check() == sat:\<close> the report is printed; the \<open>if\<close> has no \<open>else\<close>, so
      without a model nothing is printed.\<close>
  "print_report numbers target answer =
     (case answer of Some m \<Rightarrow> report numbers target m | None \<Rightarrow> Inr [])"

definition CountingStrategy :: "int list \<Rightarrow> int \<Rightarrow> py_error + string list \<Rightarrow> bool" where
  \<comment> \<open>What a call prints.\<close>
  "CountingStrategy numbers target out \<longleftrightarrow>
     (\<exists>answer. CountingStrategy_answer numbers target answer \<and>
               out = print_report numbers target answer)"

section \<open>The resilient encoding\<close>

definition vals_arr :: "'a assignment_scheme \<Rightarrow> (int \<Rightarrow> int)" where
  \<comment> \<open>\<open>for i in range(6): vals_arr = Store(vals_arr, i, vals[i])\<close>\<close>
  "vals_arr a = foldl (\<lambda>arr i. Store arr (int i) (vals a i)) (K 0) [0..<6]"

definition ops_arr :: "'a assignment_scheme \<Rightarrow> (int \<Rightarrow> int)" where
  \<comment> \<open>\<open>for i in range(5): ops_arr = Store(ops_arr, i, ops[i])\<close>\<close>
  "ops_arr a = foldl (\<lambda>arr i. Store arr (int i) (ops a i)) (K 0) [0..<5]"

definition cases_c :: "'a resilient_assignment_scheme \<Rightarrow> bool list" where
  \<comment> \<open>The list \<open>cases\<close>: \<open>And(last_op == k, steps[k], tail)\<close> for k in 1..5.\<close>
  "cases_c a =
     map (\<lambda>k. last_op a = int k \<and> steps a k \<and> (if k = 5 then True else \<not> steps a (k + 1)))
       [1..<6]"

definition c_last_op :: "'a resilient_assignment_scheme \<Rightarrow> bool" where
  "c_last_op a \<longleftrightarrow> (\<exists>c \<in> set (cases_c a). c)"

definition c_step1 :: "'a assignment_scheme \<Rightarrow> bool" where
  "c_step1 a \<longleftrightarrow> steps a 1 = True"

definition c_last_op_range :: "'a resilient_assignment_scheme \<Rightarrow> bool" where
  "c_last_op_range a \<longleftrightarrow> last_op a \<ge> 1 \<and> last_op a \<le> 5"

definition pre_last_val :: "'a resilient_assignment_scheme \<Rightarrow> int" where
  "pre_last_val a = Select (vals_arr a) (last_op a - 1)"

definition last_op_code :: "'a resilient_assignment_scheme \<Rightarrow> int" where
  "last_op_code a = Select (ops_arr a) (last_op a - 1)"

definition legal_attack :: "'a resilient_assignment_scheme \<Rightarrow> int \<Rightarrow> bool" where
  "legal_attack a attack \<longleftrightarrow> last_op_code a \<noteq> 3 \<or> z3_mod (pre_last_val a) attack = 0"

definition c_attacks :: "int \<Rightarrow> 'a resilient_assignment_scheme \<Rightarrow> bool" where
  \<comment> \<open>The body of \<open>for attack in range(1,11)\<close>: an illegal attack leaves its
      \<open>att_res\<close> free and gets the distance -1.\<close>
  "c_attacks target a \<longleftrightarrow>
     (\<forall>attack \<in> set [1..10].
        (legal_attack a attack \<longrightarrow>
           apply_c (last_op_code a) (pre_last_val a) (att_res a attack) True attack) \<and>
        att_dist a attack =
          (if legal_attack a attack then Abs (target - att_res a attack) else - 1))"

definition c_worst :: "'a resilient_assignment_scheme \<Rightarrow> bool" where
  "c_worst a \<longleftrightarrow>
     (\<forall>attack \<in> set [1..10]. worst_dist a \<ge> att_dist a attack) \<and>
     (\<exists>attack \<in> set [1..10]. legal_attack a attack \<and> worst_dist a = att_dist a attack)"

definition CountingStrategyResilient_constraints ::
  "int list \<Rightarrow> int \<Rightarrow> 'a resilient_assignment_scheme \<Rightarrow> bool" where
  \<comment> \<open>Everything \<open>CountingStrategyResilient\<close> adds to the solver.\<close>
  "CountingStrategyResilient_constraints numbers target a \<longleftrightarrow>
     c_initial numbers a \<and> c_ids a \<and> c_ops a \<and> c_prefix a \<and> c_unique a \<and>
     c_transition numbers a \<and> c_last_op a \<and> c_step0 a \<and> c_step1 a \<and> c_last_op_range a \<and>
     c_attacks target a \<and> c_worst a"

definition second_objective_resilient :: "'a resilient_assignment_scheme \<Rightarrow> int" where
  \<comment> \<open>\<open>If(worst_dist == 0, used_count, 0)\<close>\<close>
  "second_objective_resilient a = (if worst_dist a = 0 then used_count a else 0)"

definition CountingStrategyResilient_sat :: "int list \<Rightarrow> int \<Rightarrow> bool" where
  "CountingStrategyResilient_sat numbers target \<longleftrightarrow>
     (\<exists>a :: resilient_assignment. CountingStrategyResilient_constraints numbers target a)"

definition CountingStrategyResilient_model ::
  "int list \<Rightarrow> int \<Rightarrow> resilient_assignment \<Rightarrow> bool" where
  "CountingStrategyResilient_model numbers target m \<longleftrightarrow>
     lex_minimal (CountingStrategyResilient_constraints numbers target)
       worst_dist second_objective_resilient m"

definition report_resilient ::
  "int list \<Rightarrow> int \<Rightarrow> 'a resilient_assignment_scheme \<Rightarrow> py_error + string list" where
  "report_resilient numbers target m =
     (case report numbers target m of
        Inl e \<Rightarrow> Inl e
      | Inr ls \<Rightarrow> Inr (ls @ [''Distance from goal after attack: '' @ str (worst_dist m)]))"

definition CountingStrategyResilient_answer ::
  "int list \<Rightarrow> int \<Rightarrow> resilient_assignment option \<Rightarrow> bool" where
  "CountingStrategyResilient_answer numbers target answer \<longleftrightarrow>
     (case answer of
        Some m \<Rightarrow> CountingStrategyResilient_model numbers target m
      | None \<Rightarrow> \<not> CountingStrategyResilient_sat numbers target)"

definition print_report_resilient ::
  "int list \<Rightarrow> int \<Rightarrow> 'a resilient_assignment_scheme option \<Rightarrow> py_error + string list" where
  "print_report_resilient numbers target answer =
     (case answer of Some m \<Rightarrow> report_resilient numbers target m | None \<Rightarrow> Inr [])"

definition CountingStrategyResilient ::
  "int list \<Rightarrow> int \<Rightarrow> py_error + string list \<Rightarrow> bool" where
  "CountingStrategyResilient numbers target out \<longleftrightarrow>
     (\<exists>answer. CountingStrategyResilient_answer numbers target answer \<and>
               out = print_report_resilient numbers target answer)"

section \<open>The words of the specification\<close>

text \<open>
  The definitions of this section do not come from Exam.py. They say what the specification
  says: the next value of a step as a function, the distance an attack leaves, the set of
  legal attacks, the worst distance over them, the number of executed steps, the transition of
  one step, the operand indices of the executed steps, and a pool cut or padded to six
  entries. The theorems compare the constraints with them.
\<close>

definition apply_result :: "int \<Rightarrow> int \<Rightarrow> int \<Rightarrow> int" where
  \<comment> \<open>The next value of an executed step, as the specification words it: add, subtract,
      multiply, and the quotient for divide.\<close>
  "apply_result operator currentValue operand =
     (if operator = 0 then currentValue + operand
      else if operator = 1 then currentValue - operand
      else if operator = 2 then currentValue * operand
      else currentValue div operand)"

definition attack_dist :: "int \<Rightarrow> 'a resilient_assignment_scheme \<Rightarrow> int \<Rightarrow> int" where
  "attack_dist target a attack =
     \<bar>target - apply_result (last_op_code a) (pre_last_val a) attack\<bar>"

definition legal_attacks :: "'a resilient_assignment_scheme \<Rightarrow> int set" where
  "legal_attacks a = {attack \<in> set [1..10]. last_op_code a \<noteq> 3 \<or> pre_last_val a mod attack = 0}"

definition worstDist :: "int \<Rightarrow> 'a resilient_assignment_scheme \<Rightarrow> int" where
  \<comment> \<open>The maximum distance over all legal attacks.\<close>
  "worstDist target a = Max (attack_dist target a ` legal_attacks a)"

definition usedCount :: "'a assignment_scheme \<Rightarrow> int" where
  \<comment> \<open>The number of executed steps, step 0 included.\<close>
  "usedCount a = int (length (filter (steps a) [0..<6]))"

definition spec_transition :: "int list \<Rightarrow> 'a assignment_scheme \<Rightarrow> nat \<Rightarrow> bool" where
  "spec_transition numbers a k \<longleftrightarrow>
     (let operand = numbers ! nat (ids a k); operator = ops a (k - 1);
          currentValue = vals a (k - 1); nextValue = vals a k
      in (\<not> steps a k \<longrightarrow> nextValue = currentValue) \<and>
         (steps a k \<longrightarrow>
            (operator = 0 \<longrightarrow> nextValue = currentValue + operand) \<and>
            (operator = 1 \<longrightarrow> nextValue = currentValue - operand) \<and>
            (operator = 2 \<longrightarrow> nextValue = currentValue * operand) \<and>
            (operator = 3 \<longrightarrow>
               operand \<noteq> 0 \<and> currentValue mod operand = 0 \<and>
               nextValue = currentValue div operand \<and> nextValue * operand = currentValue) \<and>
            operator \<in> {0, 1, 2, 3}))"

definition executed_ids :: "'a assignment_scheme \<Rightarrow> int list" where
  "executed_ids a = map (ids a) (filter (steps a) [0..<6])"

definition pad6 :: "int list \<Rightarrow> int list" where
  "pad6 numbers = take 6 (numbers @ replicate 6 0)"

section \<open>Assignments used as examples\<close>

text \<open>
  \<open>pick_only\<close> picks the pool entry \<open>i\<close> and executes no operation.
  \<open>pick_add\<close> adds the entry 1 to the entry 0 and then stops; its attacks are
  \<open>first + attack\<close>, all legal. \<open>demo_divide\<close> is 50 / 10 on the pool
  1, 3, 5, 8, 10, 50, \<open>demo_divide_resilient\<close> the same with target 5, where the
  attacks 1, 2, 5 and 10 are legal. \<open>demo_minus_one\<close> is 1 / -1 on the pool
  1, -1, 0, 0, 0, 0 and \<open>demo_exact\<close> is 1 / 1 on the pool 1, 1, 2, 3, 4, 5, both with
  target 1, where 1 is the only legal attack. \<open>demo_sum51\<close> is 1 + 50 on the pool
  1, 3, 5, 8, 10, 50. \<open>demo_ones\<close> adds all entries of the pool of six ones, and
  \<open>demo_ones_resilient\<close> is the same with target 100, where the last step is attacked on
  the value 5. \<open>demo_zero_add\<close> adds two entries of the pool of six zeros;
  \<open>demo_zero_add_resilient\<close> and \<open>demo_zero_add2_resilient\<close> add two and three of them,
  with target 5.
\<close>

definition pick_only :: "int list \<Rightarrow> int \<Rightarrow> assignment" where
  "pick_only numbers i =
     \<lparr>ids = (\<lambda>_. i), steps = (\<lambda>k. k = 0), ops = (\<lambda>_. 0),
      vals = (\<lambda>_. Select (numbers_arr numbers) i)\<rparr>"

definition demo_divide :: assignment where
  "demo_divide =
     \<lparr>ids = (\<lambda>k. if k = 0 then 5 else if k = 1 then 4 else 0), steps = (\<lambda>k. k < 2),
      ops = (\<lambda>_. 3), vals = (\<lambda>k. if k = 0 then 50 else 5)\<rparr>"

definition demo_divide_resilient :: resilient_assignment where
  "demo_divide_resilient =
     \<lparr>ids = (\<lambda>k. if k = 0 then 5 else if k = 1 then 4 else 0), steps = (\<lambda>k. k < 2),
      ops = (\<lambda>_. 3), vals = (\<lambda>k. if k = 0 then 50 else 5),
      last_op = 1, att_res = (\<lambda>attack. 50 div attack),
      att_dist = (\<lambda>attack. if 50 mod attack = 0 then \<bar>5 - 50 div attack\<bar> else - 1),
      worst_dist = 45\<rparr>"

definition demo_minus_one :: resilient_assignment where
  "demo_minus_one =
     \<lparr>ids = (\<lambda>k. if k = 0 then 0 else if k = 1 then 1 else 2), steps = (\<lambda>k. k < 2),
      ops = (\<lambda>_. 3), vals = (\<lambda>k. if k = 0 then 1 else - 1),
      last_op = 1, att_res = (\<lambda>_. 1), att_dist = (\<lambda>attack. if attack = 1 then 0 else - 1),
      worst_dist = 0\<rparr>"

definition demo_exact :: resilient_assignment where
  "demo_exact =
     \<lparr>ids = (\<lambda>k. if k = 0 then 0 else if k = 1 then 1 else 2), steps = (\<lambda>k. k < 2),
      ops = (\<lambda>_. 3), vals = (\<lambda>_. 1),
      last_op = 1, att_res = (\<lambda>_. 1), att_dist = (\<lambda>attack. if attack = 1 then 0 else - 1),
      worst_dist = 0\<rparr>"

definition pick_add :: "int list \<Rightarrow> int \<Rightarrow> resilient_assignment" where
  "pick_add numbers target =
     (let first = Select (numbers_arr numbers) 0; second = Select (numbers_arr numbers) 1
      in \<lparr>ids = (\<lambda>k. if k = 0 then 0 else 1), steps = (\<lambda>k. k < 2), ops = (\<lambda>_. 0),
           vals = (\<lambda>k. if k = 0 then first else first + second),
           last_op = 1, att_res = (\<lambda>attack. first + attack),
           att_dist = (\<lambda>attack. Abs (target - (first + attack))),
           worst_dist = Max ((\<lambda>attack. Abs (target - (first + attack))) ` set [1..10])\<rparr>)"

definition demo_sum51 :: assignment where
  "demo_sum51 =
     \<lparr>ids = (\<lambda>k. if k = 0 then 0 else if k = 1 then 5 else 1), steps = (\<lambda>k. k < 2),
      ops = (\<lambda>_. 0), vals = (\<lambda>k. if k = 0 then 1 else 51)\<rparr>"

definition demo_ones :: assignment where
  "demo_ones = \<lparr>ids = (\<lambda>k. int k), steps = (\<lambda>k. k < 6), ops = (\<lambda>_. 0), vals = (\<lambda>k. int k + 1)\<rparr>"

definition demo_zero_add :: assignment where
  "demo_zero_add =
     \<lparr>ids = (\<lambda>k. if k = 0 then 0 else 1), steps = (\<lambda>k. k < 2), ops = (\<lambda>_. 0), vals = (\<lambda>_. 0)\<rparr>"

definition demo_ones_resilient :: resilient_assignment where
  "demo_ones_resilient =
     \<lparr>ids = (\<lambda>k. int k), steps = (\<lambda>k. k < 6), ops = (\<lambda>_. 0), vals = (\<lambda>k. int k + 1),
      last_op = 5, att_res = (\<lambda>attack. 5 + attack),
      att_dist = (\<lambda>attack. \<bar>100 - (5 + attack)\<bar>), worst_dist = 94\<rparr>"

definition demo_zero_add_resilient :: resilient_assignment where
  "demo_zero_add_resilient =
     \<lparr>ids = (\<lambda>k. if k = 0 then 0 else 1), steps = (\<lambda>k. k < 2), ops = (\<lambda>_. 0), vals = (\<lambda>_. 0),
      last_op = 1, att_res = (\<lambda>attack. attack), att_dist = (\<lambda>attack. \<bar>5 - attack\<bar>),
      worst_dist = 5\<rparr>"

definition demo_zero_add2_resilient :: resilient_assignment where
  "demo_zero_add2_resilient =
     \<lparr>ids = (\<lambda>k. if k < 3 then int k else 0), steps = (\<lambda>k. k < 3), ops = (\<lambda>_. 0),
      vals = (\<lambda>_. 0),
      last_op = 2, att_res = (\<lambda>attack. attack), att_dist = (\<lambda>attack. \<bar>5 - attack\<bar>),
      worst_dist = 5\<rparr>"

section \<open>Facts about the solver terms\<close>

lemma Abs_abs: "Abs x = \<bar>x\<bar>" by (simp add: Abs_def)

lemma z3_mod_eq_0_iff: "z3_mod k l = 0 \<longleftrightarrow> l dvd k"
  by (auto simp: z3_mod_def mod_eq_0_iff_dvd)

lemma z3_div_exact: "l dvd k \<Longrightarrow> z3_div k l = k div l"
proof (cases "0 \<le> l")
  case True
  then show ?thesis by (simp add: z3_div_def)
next
  case False
  assume "l dvd k"
  then obtain q where q: "k = l * q" by (auto elim: dvdE)
  have l: "l \<noteq> 0" using False by simp
  have "k = (- l) * (- q)" using q by simp
  then have "k div (- l) = - q" using l by (metis neg_equal_0_iff_equal nonzero_mult_div_cancel_left)
  moreover have "k div l = q" using q l by simp
  ultimately show ?thesis using False by (simp add: z3_div_def)
qed

lemma z3_mod_pos: "0 < l \<Longrightarrow> z3_mod k l = k mod l"
  by (simp add: z3_mod_def)

lemma z3_div_pos: "0 < l \<Longrightarrow> z3_div k l = k div l"
  by (simp add: z3_div_def)

lemma foldl_Store_enumerate:
  "foldl (\<lambda>arr (i, v). Store arr (int i) v) a (enumerate n xs) i =
     (if int n \<le> i \<and> i < int n + int (length xs) then xs ! nat (i - int n) else a i)"
proof (induction xs arbitrary: a n)
  case Nil then show ?case by simp
next
  case (Cons x xs)
  have "nat (i - int n) = Suc (nat (i - (1 + int n)))" if "1 + int n \<le> i"
    using that by linarith
  then show ?case
    apply (simp add: Cons.IH)
    apply (auto simp: Store_def)
    done
qed

lemma numbers_arr_eq:
  "numbers_arr numbers i = (if 0 \<le> i \<and> i < int (length numbers) then numbers ! nat i else 0)"
  using foldl_Store_enumerate[of "K 0" 0 numbers i] by (simp add: numbers_arr_def K_def)

lemma foldl_Store_upt:
  "foldl (\<lambda>arr i. Store arr (int i) (f i)) a [m..<n] i =
     (if int m \<le> i \<and> i < int n then f (nat i) else a i)"
proof (induction n)
  case 0 then show ?case by simp
next
  case (Suc n)
  then show ?case by (auto simp: Store_def)
qed

lemma vals_arr_eq: "vals_arr a i = (if 0 \<le> i \<and> i < 6 then vals a (nat i) else 0)"
  using foldl_Store_upt[of "vals a" "K 0" 0 6 i] by (simp add: vals_arr_def K_def)

lemma ops_arr_eq: "ops_arr a i = (if 0 \<le> i \<and> i < 5 then ops a (nat i) else 0)"
  using foldl_Store_upt[of "ops a" "K 0" 0 5 i] by (simp add: ops_arr_def K_def)

lemma minimal_exists:
  assumes "F a" and "\<And>b. F b \<Longrightarrow> 0 \<le> f b"
  shows "\<exists>m. minimal F f m"
proof -
  from ex_has_least_nat[of F a "\<lambda>b. nat (f b)"] assms(1)
  obtain m where m: "F m" "\<forall>y. F y \<longrightarrow> nat (f m) \<le> nat (f y)" by blast
  have "f m \<le> f b" if "F b" for b
    using m(2) that assms(2)[OF that] assms(2)[OF m(1)] by (metis nat_le_eq_zle)
  with m(1) show ?thesis unfolding minimal_def by blast
qed

lemma lex_minimal_exists:
  assumes "F a" and "\<And>b. F b \<Longrightarrow> 0 \<le> f b" and "\<And>b. F b \<Longrightarrow> 0 \<le> g b"
  shows "\<exists>m. lex_minimal F f g m"
proof -
  obtain m1 where m1: "minimal F f m1" using minimal_exists[of F a f] assms(1,2) by blast
  then have "F m1 \<and> f m1 = f m1" by (simp add: minimal_def)
  from minimal_exists[of "\<lambda>b. F b \<and> f b = f m1" m1 g, OF this]
  obtain m where m: "minimal (\<lambda>b. F b \<and> f b = f m1) g m" using assms(3) by blast
  then have eq: "f m = f m1" and Fm: "F m" by (simp_all add: minimal_def)
  have "minimal F f m" using m1 Fm eq by (simp add: minimal_def)
  moreover have "minimal (\<lambda>b. F b \<and> f b = f m) g m" using m eq by simp
  ultimately show ?thesis unfolding lex_minimal_def by blast
qed

lemma upt6: "[0..<6] = [0, 1, 2, 3, 4, 5]"
  by code_simp

lemma used_count_eq:
  "used_count a = (if steps a 0 then 1 else 0) + (if steps a 1 then 1 else 0) + (if steps a 2 then 1 else 0)
     + (if steps a 3 then 1 else 0) + (if steps a 4 then 1 else 0) + (if steps a 5 then 1 else 0)"
  by (simp add: used_count_def upt6)

section \<open>Facts about the constraints\<close>

lemma apply_c_functional:
  "apply_c op_now val_now x True n \<Longrightarrow> apply_c op_now val_now y True n \<Longrightarrow> x = y"
  by (simp add: apply_c_def split: if_splits)

lemma dist_to_target_nonneg: "0 \<le> dist_to_target target a"
  by (simp add: dist_to_target_def Abs_abs)

lemma used_count_nonneg: "0 \<le> used_count a"
  by (simp add: used_count_eq)

lemma used_count_ge1: "c_step0 a \<Longrightarrow> 1 \<le> used_count a"
  by (simp add: used_count_eq c_step0_def)

lemma used_count_ge2: "c_step0 a \<Longrightarrow> c_step1 a \<Longrightarrow> 2 \<le> used_count a"
  by (simp add: used_count_eq c_step0_def c_step1_def)

lemma second_objective_nonneg: "0 \<le> second_objective target a"
  by (simp add: second_objective_def used_count_nonneg)

lemma second_objective_resilient_nonneg: "0 \<le> second_objective_resilient a"
  by (simp add: second_objective_resilient_def used_count_nonneg)

lemma c_prefix_down:
  "c_prefix a \<Longrightarrow> steps a j \<Longrightarrow> j < 6 \<Longrightarrow> i \<le> j \<Longrightarrow> steps a i"
proof (induction j)
  case 0
  then show ?case by simp
next
  case (Suc j)
  show ?case
  proof (cases "i = Suc j")
    case True
    with Suc.prems show ?thesis by simp
  next
    case False
    from Suc.prems have "steps a j" by (auto simp: c_prefix_def)
    with Suc False show ?thesis by simp
  qed
qed

lemma c_prefix_up:
  "c_prefix a \<Longrightarrow> \<not> steps a i \<Longrightarrow> i \<le> j \<Longrightarrow> j < 6 \<Longrightarrow> \<not> steps a j"
  using c_prefix_down by blast

lemma vals_skipped:
  assumes "c_transition numbers a" and "\<And>k. L < k \<Longrightarrow> k < 6 \<Longrightarrow> \<not> steps a k"
  shows "L \<le> j \<Longrightarrow> j < 6 \<Longrightarrow> vals a j = vals a L"
proof (induction j)
  case 0
  then show ?case by simp
next
  case (Suc j)
  show ?case
  proof (cases "L = Suc j")
    case True
    then show ?thesis by simp
  next
    case False
    with Suc.prems have "L < Suc j" by simp
    then have "\<not> steps a (Suc j)" using assms(2) Suc.prems by blast
    moreover have "Suc j \<in> set [1..<6]" using Suc.prems by simp
    ultimately have "vals a (Suc j) = vals a j"
      using assms(1) unfolding c_transition_def by (metis diff_Suc_1)
    with Suc False \<open>L < Suc j\<close> show ?thesis by simp
  qed
qed

lemma resilient_contains_plain:
  "CountingStrategyResilient_constraints numbers target a \<Longrightarrow> CountingStrategy_constraints numbers a"
  by (simp add: CountingStrategyResilient_constraints_def CountingStrategy_constraints_def)

lemma select_numbers:
  "length numbers = 6 \<Longrightarrow> c_ids a \<Longrightarrow> k < 6 \<Longrightarrow>
     Select (numbers_arr numbers) (ids a k) = numbers ! nat (ids a k)"
  by (simp add: Select_def numbers_arr_eq c_ids_def)

lemma last_op_is_last:
  assumes "c_last_op a" "c_prefix a"
  shows "1 \<le> last_op a \<and> last_op a \<le> 5 \<and> steps a (nat (last_op a)) \<and>
         (\<forall>k. k < 6 \<longrightarrow> (steps a k \<longleftrightarrow> int k \<le> last_op a))"
proof -
  from assms(1) obtain k where k: "k \<in> {1..<6}" "last_op a = int k" "steps a k"
      "k \<noteq> 5 \<Longrightarrow> \<not> steps a (k + 1)"
    by (auto simp: c_last_op_def cases_c_def split: if_splits)
  have "steps a j \<longleftrightarrow> j \<le> k" if "j < 6" for j
  proof
    assume sj: "steps a j"
    show "j \<le> k"
    proof (rule ccontr)
      assume "\<not> j \<le> k"
      then have "k + 1 \<le> j" "k \<noteq> 5" using that by simp_all
      then have "\<not> steps a j" using c_prefix_up[OF assms(2) k(4)] that by blast
      with sj show False by simp
    qed
  next
    assume "j \<le> k"
    then show "steps a j" using c_prefix_down[OF assms(2) k(3)] k(1) by simp
  qed
  with k show ?thesis by auto
qed

lemma demo_divide_constraints: "CountingStrategy_constraints [1, 3, 5, 8, 10, 50] demo_divide"
  by code_simp

lemma demo_divide_resilient_constraints:
  "CountingStrategyResilient_constraints [1, 3, 5, 8, 10, 50] 5 demo_divide_resilient"
  by code_simp

lemma transition_holds:
  assumes len: "length numbers = 6" and k: "1 \<le> k" "k \<le> 5"
    and c: "CountingStrategy_constraints numbers a"
  shows "spec_transition numbers a k"
proof -
  from c have ids: "c_ids a" and ops: "c_ops a" and tr: "c_transition numbers a"
    by (simp_all add: CountingStrategy_constraints_def)
  have sel: "Select (numbers_arr numbers) (ids a k) = numbers ! nat (ids a k)"
    using select_numbers[OF len ids] k by simp
  have kin: "k \<in> set [1..<6]" using k by simp
  have opr: "0 \<le> ops a (k - 1) \<and> ops a (k - 1) < 4"
    using ops k by (simp add: c_ops_def)
  from tr kin have step:
    "if steps a k
     then apply_c (ops a (k - 1)) (vals a (k - 1)) (vals a k) True (numbers ! nat (ids a k))
     else vals a k = vals a (k - 1)"
    unfolding c_transition_def sel[symmetric] by blast
  show ?thesis
  proof (cases "steps a k")
    case False
    with step show ?thesis by (simp add: spec_transition_def)
  next
    case True
    with step have ap:
      "apply_c (ops a (k - 1)) (vals a (k - 1)) (vals a k) True (numbers ! nat (ids a k))"
      by simp
    have four: "ops a (k - 1) \<in> {0, 1, 2, 3}" using opr by auto
    show ?thesis
      using True ap four
      by (auto simp: spec_transition_def Let_def apply_c_def z3_mod_eq_0_iff z3_div_exact
          mod_eq_0_iff_dvd)
  qed
qed

text \<open>
  Claim C5. For every step k in 1..5 of an assignment that satisfies the constraints of
  either solver, on a pool of six integers: a step that is not executed keeps the value; an
  executed step adds, subtracts or multiplies by the operand, or, for divide, the operand is
  not zero, divides the current value exactly, and the next value is the quotient. An
  assignment with a division by zero or an inexact division satisfies no such constraint.
\<close>

theorem transition_semantics:
  assumes "length numbers = 6" and "1 \<le> k" and "k \<le> 5"
  shows "(CountingStrategy_constraints numbers a \<longrightarrow> spec_transition numbers a k) \<and>
         (CountingStrategyResilient_constraints numbers target r \<longrightarrow> spec_transition numbers r k)"
  using transition_holds[OF assms, of a] transition_holds[OF assms, of r]
    resilient_contains_plain[of numbers target r] by blast

text \<open>
  Claim C5 at the pool 1, 3, 5, 8, 10, 50, on 50 / 10 = 5 in step 1, for both encodings.
\<close>

theorem transition_semantics_witness:
  "length [1, 3, 5, 8, 10, 50 :: int] = 6 \<and> (1::nat) \<le> 1 \<and> (1::nat) \<le> 5 \<and>
   CountingStrategy_constraints [1, 3, 5, 8, 10, 50] demo_divide \<and>
   spec_transition [1, 3, 5, 8, 10, 50] demo_divide 1 \<and>
   CountingStrategyResilient_constraints [1, 3, 5, 8, 10, 50] 5 demo_divide_resilient \<and>
   spec_transition [1, 3, 5, 8, 10, 50] demo_divide_resilient 1"
  using transition_semantics[of "[1, 3, 5, 8, 10, 50]" 1 demo_divide 5 demo_divide_resilient]
    demo_divide_constraints demo_divide_resilient_constraints by simp

lemma c_unique_distinct:
  assumes "c_unique a"
  shows "distinct (executed_ids a)"
proof -
  have neq: "ids a i \<noteq> ids a j" if "i < j" "j < 6" "steps a i" "steps a j" for i j
    using assms that unfolding c_unique_def by simp
  have "inj_on (ids a) {k \<in> {0..<6}. steps a k}"
  proof (rule inj_onI)
    fix i j assume "i \<in> {k \<in> {0..<6}. steps a k}" "j \<in> {k \<in> {0..<6}. steps a k}"
      and eq: "ids a i = ids a j"
    then have ij: "i < 6" "j < 6" "steps a i" "steps a j" by simp_all
    show "i = j"
    proof (rule ccontr)
      assume "i \<noteq> j"
      then consider "i < j" | "j < i" by linarith
      then show False using neq ij eq by cases metis+
    qed
  qed
  then show ?thesis by (simp add: executed_ids_def distinct_map)
qed

text \<open>
  Claim C8. In every assignment that satisfies the constraints of either solver, the
  operand indices of the executed steps are pairwise distinct: no two executed steps use the
  same pool entry.
\<close>

theorem no_operand_reuse:
  "(CountingStrategy_constraints numbers a \<longrightarrow>
      distinct (executed_ids a) \<and>
      (\<forall>i < 6. \<forall>j < 6. i \<noteq> j \<and> steps a i \<and> steps a j \<longrightarrow> ids a i \<noteq> ids a j)) \<and>
   (CountingStrategyResilient_constraints numbers target r \<longrightarrow>
      distinct (executed_ids r) \<and>
      (\<forall>i < 6. \<forall>j < 6. i \<noteq> j \<and> steps r i \<and> steps r j \<longrightarrow> ids r i \<noteq> ids r j))"
proof -
  have *: "distinct (executed_ids b) \<and>
      (\<forall>i < 6. \<forall>j < 6. i \<noteq> j \<and> steps b i \<and> steps b j \<longrightarrow> ids b i \<noteq> ids b j)"
    if "c_unique b" for b :: "'c assignment_scheme"
  proof -
    have "ids b i \<noteq> ids b j" if "i < j" "j < 6" "steps b i" "steps b j" for i j
      using \<open>c_unique b\<close> that unfolding c_unique_def by simp
    then have "\<forall>i < 6. \<forall>j < 6. i \<noteq> j \<and> steps b i \<and> steps b j \<longrightarrow> ids b i \<noteq> ids b j"
      by (metis nat_neq_iff)
    with c_unique_distinct[OF that] show ?thesis by simp
  qed
  show ?thesis
    using *[of a] *[of r]
    by (simp add: CountingStrategy_constraints_def CountingStrategyResilient_constraints_def)
qed

text \<open>
  Claim C8 at the pool 1, 3, 5, 8, 10, 50, on 50 / 10, for both encodings.
\<close>

theorem no_operand_reuse_witness:
  "CountingStrategy_constraints [1, 3, 5, 8, 10, 50] demo_divide \<and>
   distinct (executed_ids demo_divide) \<and>
   CountingStrategyResilient_constraints [1, 3, 5, 8, 10, 50] 5 demo_divide_resilient \<and>
   distinct (executed_ids demo_divide_resilient)"
  using no_operand_reuse[of "[1, 3, 5, 8, 10, 50]" demo_divide 5 demo_divide_resilient]
    demo_divide_constraints demo_divide_resilient_constraints by simp

lemma pick_only_constraints:
  assumes "0 \<le> i" "i < 6"
  shows "CountingStrategy_constraints numbers (pick_only numbers i)"
  using assms
  by (simp add: CountingStrategy_constraints_def pick_only_def c_initial_def c_ids_def c_ops_def
      c_prefix_def c_unique_def c_transition_def c_step0_def)

lemma CountingStrategy_sat_always: "CountingStrategy_sat numbers"
  unfolding CountingStrategy_sat_def using pick_only_constraints[of 0 numbers] by auto

lemma CountingStrategy_model_exists: "\<exists>m. CountingStrategy_model numbers target m"
  unfolding CountingStrategy_model_def
proof (rule lex_minimal_exists)
  show "CountingStrategy_constraints numbers (pick_only numbers 0)"
    by (rule pick_only_constraints) simp_all
qed (rule dist_to_target_nonneg, rule second_objective_nonneg)

lemma report_not_empty: "report numbers target m \<noteq> Inr []"
  by (simp add: report_def split: sum.splits)

text \<open>
  Claim C9. For every pool of six integers and every target, the assignment that executes
  only step 0 on any pool entry (every later step skipped, so that \<open>value[5] = value[0]\<close>
  is that entry) satisfies every constraint of \<open>CountingStrategy\<close>. So the constraints
  have a model, the optimiser has a model to return, and a call never prints nothing.
\<close>

theorem feasible_region_nonempty:
  assumes "length numbers = 6" and "0 \<le> i" and "i < 6"
  shows "CountingStrategy_constraints numbers (pick_only numbers i) \<and>
         (\<forall>k \<in> {1..5}. \<not> steps (pick_only numbers i) k) \<and>
         vals (pick_only numbers i) 5 = vals (pick_only numbers i) 0 \<and>
         vals (pick_only numbers i) 0 = numbers ! nat i \<and>
         CountingStrategy_sat numbers \<and>
         (\<exists>m. CountingStrategy_model numbers target m) \<and>
         \<not> CountingStrategy numbers target (Inr [])"
proof -
  have "vals (pick_only numbers i) 0 = numbers ! nat i"
    using assms by (simp add: pick_only_def Select_def numbers_arr_eq)
  moreover have "\<not> CountingStrategy numbers target (Inr [])"
    by (auto simp: CountingStrategy_def CountingStrategy_answer_def print_report_def
        CountingStrategy_sat_always report_not_empty[symmetric] split: option.splits)
  ultimately show ?thesis
    using pick_only_constraints[OF assms(2,3), of numbers] CountingStrategy_sat_always
      CountingStrategy_model_exists
    by (simp add: pick_only_def)
qed

text \<open>
  Claim C9 at the pool 1, 3, 5, 8, 10, 50 with target 462, picking the entry 50.
\<close>

theorem feasible_region_nonempty_witness:
  "length [1, 3, 5, 8, 10, 50 :: int] = 6 \<and> (0::int) \<le> 5 \<and> (5::int) < 6 \<and>
   CountingStrategy_constraints [1, 3, 5, 8, 10, 50] (pick_only [1, 3, 5, 8, 10, 50] 5) \<and>
   vals (pick_only [1, 3, 5, 8, 10, 50] 5) 5 = 50 \<and>
   \<not> CountingStrategy [1, 3, 5, 8, 10, 50] 462 (Inr [])"
  using feasible_region_nonempty[of "[1, 3, 5, 8, 10, 50]" 5 462] by simp

section \<open>Facts about the attacks\<close>

lemma legal_attack_1: "legal_attack a 1"
  by (simp add: legal_attack_def z3_mod_def)

lemma legal_attack_iff:
  "0 < attack \<Longrightarrow>
     legal_attack a attack \<longleftrightarrow> last_op_code a \<noteq> 3 \<or> pre_last_val a mod attack = 0"
  by (simp add: legal_attack_def z3_mod_pos)

lemma legal_attacks_eq: "legal_attacks a = {attack \<in> {1..10}. legal_attack a attack}"
  by (auto simp: legal_attacks_def legal_attack_iff)

lemma att_res_legal:
  assumes "c_attacks target a" "attack \<in> {1..10}" "legal_attack a attack"
  shows "att_res a attack = apply_result (last_op_code a) (pre_last_val a) attack"
proof -
  from assms have "apply_c (last_op_code a) (pre_last_val a) (att_res a attack) True attack"
    by (simp add: c_attacks_def)
  moreover have "0 < attack" using assms(2) by simp
  ultimately show ?thesis
    by (simp add: apply_c_def apply_result_def z3_div_pos split: if_splits)
qed

lemma att_dist_legal:
  assumes "c_attacks target a" "attack \<in> {1..10}" "legal_attack a attack"
  shows "att_dist a attack = attack_dist target a attack"
proof -
  from assms have "att_dist a attack = Abs (target - att_res a attack)"
    by (simp add: c_attacks_def)
  then show ?thesis
    using att_res_legal[OF assms] by (simp add: attack_dist_def Abs_abs)
qed

lemma worst_dist_is_max:
  assumes "c_attacks target a" "c_worst a"
  shows "worst_dist a = Max (attack_dist target a ` legal_attacks a)"
proof -
  from assms(2) obtain w where w: "w \<in> {1..10}" "legal_attack a w" "worst_dist a = att_dist a w"
    by (auto simp: c_worst_def)
  have "legal_attacks a \<subseteq> {1..10}" by (auto simp: legal_attacks_eq)
  then have "finite (legal_attacks a)" by (rule finite_subset) simp
  then have fin: "finite (attack_dist target a ` legal_attacks a)" by (rule finite_imageI)
  have mem: "worst_dist a \<in> attack_dist target a ` legal_attacks a"
    using w att_dist_legal[OF assms(1) w(1,2)] by (auto simp: legal_attacks_eq)
  have ub: "d \<le> worst_dist a" if "d \<in> attack_dist target a ` legal_attacks a" for d
  proof -
    from that obtain x where x: "x \<in> {1..10}" "legal_attack a x" "d = attack_dist target a x"
      by (auto simp: legal_attacks_eq)
    have "att_dist a x \<le> worst_dist a" using assms(2) x(1) by (simp add: c_worst_def)
    then show ?thesis using att_dist_legal[OF assms(1) x(1,2)] x(3) by simp
  qed
  show ?thesis using Max_eqI[OF fin ub mem] by simp
qed

lemma worst_dist_nonneg:
  assumes "c_attacks target a" "c_worst a"
  shows "0 \<le> worst_dist a"
proof -
  from assms(2) obtain w where w: "w \<in> {1..10}" "legal_attack a w" "worst_dist a = att_dist a w"
    by (auto simp: c_worst_def)
  then show ?thesis using att_dist_legal[OF assms(1) w(1,2)] by (simp add: attack_dist_def)
qed

lemma resilient_parts:
  assumes "CountingStrategyResilient_constraints numbers target a"
  shows "c_attacks target a" "c_worst a" "c_last_op a" "c_prefix a" "c_ops a"
    "c_transition numbers a" "c_step0 a" "c_step1 a"
  using assms by (simp_all add: CountingStrategyResilient_constraints_def)

lemma pre_last_val_eq:
  assumes "1 \<le> last_op a" "last_op a \<le> 5"
  shows "pre_last_val a = vals a (nat (last_op a) - 1)"
    and "last_op_code a = ops a (nat (last_op a) - 1)"
  using assms
  by (simp_all add: pre_last_val_def last_op_code_def Select_def vals_arr_eq ops_arr_eq
      nat_diff_distrib)

text \<open>
  Claim C3. In every assignment that satisfies the resilient constraints, \<open>worst_dist\<close>
  is the maximum of \<open>\<bar>target - apply(lastOperator, preLastValue, a)\<bar>\<close> over exactly the
  legal attacks \<open>a\<close> in 1..10, an attack being legal iff the last operator is not divide or
  \<open>preLastValue mod a = 0\<close>; an illegal attack gets the distance -1 and does not
  contribute. Here \<open>last_op\<close> is the last executed step, \<open>preLastValue\<close> the value
  before it and \<open>lastOperator\<close> its operator.
\<close>

theorem worst_dist_max_of_legal_attacks:
  assumes "CountingStrategyResilient_constraints numbers target a"
  shows "legal_attacks a \<noteq> {} \<and>
         worst_dist a = Max (attack_dist target a ` legal_attacks a) \<and>
         (\<forall>attack \<in> {1..10}. attack \<notin> legal_attacks a \<longrightarrow> att_dist a attack = - 1) \<and>
         steps a (nat (last_op a)) \<and>
         (\<forall>k < 6. steps a k \<longleftrightarrow> int k \<le> last_op a) \<and>
         pre_last_val a = vals a (nat (last_op a) - 1) \<and>
         last_op_code a = ops a (nat (last_op a) - 1)"
proof -
  note p = resilient_parts[OF assms]
  have "1 \<in> legal_attacks a" by (simp add: legal_attacks_eq legal_attack_1)
  then have ne: "legal_attacks a \<noteq> {}" by blast
  have ill: "\<forall>attack \<in> {1..10}. attack \<notin> legal_attacks a \<longrightarrow> att_dist a attack = - 1"
    using p(1) by (simp add: c_attacks_def legal_attacks_eq)
  from last_op_is_last[OF p(3,4)] have L: "1 \<le> last_op a" "last_op a \<le> 5"
      "steps a (nat (last_op a))" "\<forall>k < 6. steps a k \<longleftrightarrow> int k \<le> last_op a"
    by simp_all
  show ?thesis
    using ne worst_dist_is_max[OF p(1,2)] ill L(3,4) pre_last_val_eq[OF L(1,2)] by simp
qed

text \<open>
  Claim C3 at the pool 1, 3, 5, 8, 10, 50 with target 5, on 50 / 10: the legal attacks are
  1, 2, 5 and 10, and the worst of them, 1, leaves the distance 45.
\<close>

theorem worst_dist_max_of_legal_attacks_witness:
  "CountingStrategyResilient_constraints [1, 3, 5, 8, 10, 50] 5 demo_divide_resilient \<and>
   worst_dist demo_divide_resilient = 45 \<and>
   Max (attack_dist 5 demo_divide_resilient ` legal_attacks demo_divide_resilient) = 45"
proof -
  have "worst_dist demo_divide_resilient = 45" by code_simp
  with worst_dist_max_of_legal_attacks[OF demo_divide_resilient_constraints] demo_divide_resilient_constraints
  show ?thesis by simp
qed

text \<open>
  Claim C10. In every assignment that satisfies the resilient constraints the attack 1 is
  legal whatever the last operator is, \<open>worst_dist\<close> is the distance of some legal attack,
  and so \<open>worst_dist\<close> is at least 0 and never the -1 given to illegal attacks.
\<close>

theorem attack_one_legal_worst_dist_nonneg:
  assumes "CountingStrategyResilient_constraints numbers target a"
  shows "legal_attack a 1 \<and>
         (\<exists>attack \<in> {1..10}. legal_attack a attack \<and> worst_dist a = att_dist a attack \<and>
             att_dist a attack = Abs (target - att_res a attack)) \<and>
         0 \<le> worst_dist a \<and> worst_dist a \<noteq> - 1"
proof -
  note p = resilient_parts[OF assms]
  from p(2) obtain w where w: "w \<in> {1..10}" "legal_attack a w" "worst_dist a = att_dist a w"
    by (auto simp: c_worst_def)
  have "att_dist a w = Abs (target - att_res a w)" using p(1) w by (simp add: c_attacks_def)
  with w have "\<exists>attack \<in> {1..10}. legal_attack a attack \<and> worst_dist a = att_dist a attack \<and>
             att_dist a attack = Abs (target - att_res a attack)" by blast
  moreover have "0 \<le> worst_dist a" by (rule worst_dist_nonneg[OF p(1,2)])
  ultimately show ?thesis using legal_attack_1 by simp
qed

text \<open>
  Claim C10 at the pool 1, 3, 5, 8, 10, 50 with target 5, on 50 / 10.
\<close>

theorem attack_one_legal_worst_dist_nonneg_witness:
  "CountingStrategyResilient_constraints [1, 3, 5, 8, 10, 50] 5 demo_divide_resilient \<and>
   legal_attack demo_divide_resilient 1 \<and> 0 \<le> worst_dist demo_divide_resilient"
  using attack_one_legal_worst_dist_nonneg[OF demo_divide_resilient_constraints] demo_divide_resilient_constraints by simp

text \<open>
  Claim C7 fails as stated. For the pool 1, 3, 5, 8, 10, 50 and the target 5, the
  assignment 50 / 10 satisfies the resilient constraints, its last operator is divide, and the
  attack 3 is not legal, since 3 does not divide 50.
\<close>

theorem illegal_attack_exists:
  "CountingStrategyResilient_constraints [1, 3, 5, 8, 10, 50] 5 demo_divide_resilient \<and>
   last_op_code demo_divide_resilient = 3 \<and> \<not> legal_attack demo_divide_resilient 3"
  by code_simp

text \<open>
  Claim C7, amended. In every assignment that satisfies the resilient constraints the last
  operator is one of the four; when it is not divide, all ten attacks 1..10 are legal; when it
  is divide, the legal attacks are exactly those that divide the value before the last
  step.
\<close>

theorem legal_attacks_characterised:
  assumes "CountingStrategyResilient_constraints numbers target a"
  shows "last_op_code a \<in> {0, 1, 2, 3} \<and>
         (last_op_code a \<noteq> 3 \<longrightarrow> (\<forall>attack \<in> {1..10}. legal_attack a attack)) \<and>
         (last_op_code a = 3 \<longrightarrow>
            (\<forall>attack \<in> {1..10}. legal_attack a attack \<longleftrightarrow> attack dvd pre_last_val a))"
proof -
  note p = resilient_parts[OF assms]
  from last_op_is_last[OF p(3,4)] have L: "1 \<le> last_op a" "last_op a \<le> 5" by simp_all
  have "nat (last_op a) - 1 \<in> set [0..<5]" using L by auto
  then have "0 \<le> ops a (nat (last_op a) - 1) \<and> ops a (nat (last_op a) - 1) < 4"
    using p(5) unfolding c_ops_def by blast
  then have "last_op_code a \<in> {0, 1, 2, 3}"
    using pre_last_val_eq(2)[OF L] by auto
  then show ?thesis by (simp add: legal_attack_def z3_mod_eq_0_iff)
qed

text \<open>
  Claim C7, amended, at the pool 1, 3, 5, 8, 10, 50 with target 5, on 50 / 10: the attack 5
  is legal and the attack 4 is not.
\<close>

theorem legal_attacks_characterised_witness:
  "CountingStrategyResilient_constraints [1, 3, 5, 8, 10, 50] 5 demo_divide_resilient \<and>
   last_op_code demo_divide_resilient = 3 \<and> pre_last_val demo_divide_resilient = 50 \<and>
   legal_attack demo_divide_resilient 5 \<and> \<not> legal_attack demo_divide_resilient 4"
proof -
  have c: "last_op_code demo_divide_resilient = 3" by code_simp
  have p: "pre_last_val demo_divide_resilient = 50" by code_simp
  have "\<forall>attack \<in> {1..10}. legal_attack demo_divide_resilient attack \<longleftrightarrow> attack dvd 50"
    using legal_attacks_characterised[OF demo_divide_resilient_constraints] c p by simp
  then have "legal_attack demo_divide_resilient 5 \<and> \<not> legal_attack demo_divide_resilient 4"
    by simp
  with c p demo_divide_resilient_constraints show ?thesis by simp
qed

section \<open>The optimum\<close>

lemma lex_minimal_conditional:
  "lex_minimal F f (\<lambda>a. if f a = 0 then g a else 0) m \<longleftrightarrow>
     F m \<and> (\<forall>b. F b \<longrightarrow> f m \<le> f b) \<and>
     (f m = 0 \<longrightarrow> (\<forall>b. F b \<and> f b = 0 \<longrightarrow> g m \<le> g b))"
  unfolding lex_minimal_def minimal_def by auto

lemma CountingStrategy_model_iff:
  "CountingStrategy_model numbers target m \<longleftrightarrow>
     CountingStrategy_constraints numbers m \<and>
     (\<forall>b :: assignment. CountingStrategy_constraints numbers b \<longrightarrow>
        dist_to_target target m \<le> dist_to_target target b) \<and>
     (dist_to_target target m = 0 \<longrightarrow>
        (\<forall>b :: assignment. CountingStrategy_constraints numbers b \<and> dist_to_target target b = 0 \<longrightarrow>
           used_count m \<le> used_count b))"
proof -
  have h: "second_objective target =
      (\<lambda>a :: assignment. if dist_to_target target a = 0 then used_count a else 0)"
    by (rule ext) (simp add: second_objective_def)
  show ?thesis
    unfolding CountingStrategy_model_def h by (rule lex_minimal_conditional)
qed

lemma CountingStrategyResilient_model_iff:
  "CountingStrategyResilient_model numbers target m \<longleftrightarrow>
     CountingStrategyResilient_constraints numbers target m \<and>
     (\<forall>b :: resilient_assignment. CountingStrategyResilient_constraints numbers target b \<longrightarrow>
        worst_dist m \<le> worst_dist b) \<and>
     (worst_dist m = 0 \<longrightarrow>
        (\<forall>b :: resilient_assignment.
           CountingStrategyResilient_constraints numbers target b \<and> worst_dist b = 0 \<longrightarrow>
           used_count m \<le> used_count b))"
proof -
  have h: "second_objective_resilient =
      (\<lambda>a :: resilient_assignment. if worst_dist a = 0 then used_count a else 0)"
    by (rule ext) (simp add: second_objective_resilient_def)
  show ?thesis
    unfolding CountingStrategyResilient_model_def h by (rule lex_minimal_conditional)
qed

lemma dist_to_target_abs: "dist_to_target target a = \<bar>target - vals a 5\<bar>"
  by (simp add: dist_to_target_def Abs_abs)

lemma usedCount_eq: "usedCount a = used_count a"
  by (simp add: usedCount_def used_count_eq upt6)

lemma single_pick:
  assumes "CountingStrategy_constraints numbers b" and "\<not> steps b 1"
  shows "vals b 5 = Select (numbers_arr numbers) (ids b 0)"
proof -
  from assms(1) have p: "c_prefix b" and t: "c_transition numbers b" and i: "c_initial numbers b"
    by (simp_all add: CountingStrategy_constraints_def)
  have "\<not> steps b k" if "0 < k" "k < 6" for k
    using c_prefix_up[OF p assms(2), of k] that by simp
  then have "vals b 5 = vals b 0" using vals_skipped[OF t, of 0 5] by simp
  with i show ?thesis by (simp add: c_initial_def)
qed

lemma ones_entry:
  assumes "CountingStrategy_constraints [1, 1, 1, 1, 1, 1] b" and "k < 6"
  shows "Select (numbers_arr [1, 1, 1, 1, 1, 1]) (ids b k) = 1"
proof -
  from assms have "0 \<le> ids b k" "ids b k < 6"
    by (simp_all add: CountingStrategy_constraints_def c_ids_def)
  then have "nat (ids b k) < 6" by simp
  then have "[1, 1, 1, 1, 1, 1 :: int] ! nat (ids b k) = 1"
    by (auto simp: nth_Cons' )
  with \<open>0 \<le> ids b k\<close> \<open>ids b k < 6\<close> show ?thesis by (simp add: Select_def numbers_arr_eq)
qed

lemma ones_bound:
  assumes c: "CountingStrategy_constraints [1, 1, 1, 1, 1, 1] b"
  shows "k < 6 \<Longrightarrow> vals b k \<le> int k + 1"
proof (induction k)
  case 0
  from c have "c_initial [1, 1, 1, 1, 1, 1] b" by (simp add: CountingStrategy_constraints_def)
  then show ?case using ones_entry[OF c, of 0] by (simp add: c_initial_def)
next
  case (Suc k)
  from c have t: "c_transition [1, 1, 1, 1, 1, 1] b" by (simp add: CountingStrategy_constraints_def)
  have "Suc k \<in> set [1..<6]" using Suc.prems by simp
  with t have step: "if steps b (Suc k)
      then apply_c (ops b k) (vals b k) (vals b (Suc k)) True 1
      else vals b (Suc k) = vals b k"
    unfolding c_transition_def using ones_entry[OF c Suc.prems] by (metis diff_Suc_1)
  have "vals b k \<le> int k + 1" using Suc by simp
  with step show ?case
    by (auto simp: apply_c_def z3_div_def split: if_splits)
qed

lemma zeros_entry:
  assumes "CountingStrategy_constraints [0, 0, 0, 0, 0, 0] b" and "k < 6"
  shows "Select (numbers_arr [0, 0, 0, 0, 0, 0]) (ids b k) = 0"
proof -
  from assms have "0 \<le> ids b k" "ids b k < 6"
    by (simp_all add: CountingStrategy_constraints_def c_ids_def)
  then have "nat (ids b k) < 6" by simp
  then have "[0, 0, 0, 0, 0, 0 :: int] ! nat (ids b k) = 0"
    by (auto simp: nth_Cons')
  with \<open>0 \<le> ids b k\<close> \<open>ids b k < 6\<close> show ?thesis by (simp add: Select_def numbers_arr_eq)
qed

lemma zeros_vals:
  assumes c: "CountingStrategy_constraints [0, 0, 0, 0, 0, 0] b"
  shows "k < 6 \<Longrightarrow> vals b k = 0"
proof (induction k)
  case 0
  from c have "c_initial [0, 0, 0, 0, 0, 0] b" by (simp add: CountingStrategy_constraints_def)
  then show ?case using zeros_entry[OF c, of 0] by (simp add: c_initial_def)
next
  case (Suc k)
  from c have t: "c_transition [0, 0, 0, 0, 0, 0] b" by (simp add: CountingStrategy_constraints_def)
  have "Suc k \<in> set [1..<6]" using Suc.prems by simp
  with t have step: "if steps b (Suc k)
      then apply_c (ops b k) (vals b k) (vals b (Suc k)) True 0
      else vals b (Suc k) = vals b k"
    unfolding c_transition_def using zeros_entry[OF c Suc.prems] by (metis diff_Suc_1)
  have "vals b k = 0" using Suc by simp
  with step show ?case
    by (auto simp: apply_c_def split: if_splits)
qed

lemma no_single_51:
  assumes c: "CountingStrategy_constraints [1, 3, 5, 8, 10, 50] b"
    and d: "\<bar>51 - vals b 5\<bar> = 0"
  shows "2 \<le> used_count b"
proof (rule ccontr)
  assume "\<not> 2 \<le> used_count b"
  moreover from c have "steps b 0" by (simp add: CountingStrategy_constraints_def c_step0_def)
  ultimately have n: "\<not> steps b 1" by (simp add: used_count_eq split: if_splits)
  from c have "0 \<le> ids b 0" "ids b 0 < 6"
    by (simp_all add: CountingStrategy_constraints_def c_ids_def)
  then have "ids b 0 = 0 \<or> ids b 0 = 1 \<or> ids b 0 = 2 \<or> ids b 0 = 3 \<or> ids b 0 = 4 \<or> ids b 0 = 5"
    by arith
  then have "Select (numbers_arr [1, 3, 5, 8, 10, 50]) (ids b 0) \<noteq> 51"
    by (auto simp: Select_def numbers_arr_eq)
  with single_pick[OF c n] d show False by simp
qed

lemma demo_sum51_constraints: "CountingStrategy_constraints [1, 3, 5, 8, 10, 50] demo_sum51"
  by code_simp

lemma demo_ones_constraints: "CountingStrategy_constraints [1, 1, 1, 1, 1, 1] demo_ones"
  by code_simp

lemma demo_zero_add_constraints: "CountingStrategy_constraints [0, 0, 0, 0, 0, 0] demo_zero_add"
  by code_simp

text \<open>
  Claim C1. For every pool of six integers and every target, \<open>CountingStrategy\<close> has a
  model to return. The distance \<open>\<bar>target - value[5]\<bar>\<close> of a returned model is less than or
  equal to the distance of every assignment that satisfies the constraints, and when that
  distance is 0, its number of executed steps is less than or equal to the number of executed
  steps of every satisfying assignment of distance 0. When the minimal distance is not 0 the
  number of executed steps is not optimised at all: every satisfying assignment of minimal
  distance is a model that may be returned, whatever its number of executed steps.
\<close>

theorem solve_optimal:
  assumes "length numbers = 6"
  shows "(\<exists>m. CountingStrategy_model numbers target m) \<and>
     (CountingStrategy_model numbers target m \<longrightarrow>
        CountingStrategy_constraints numbers m \<and>
        (\<forall>b :: assignment. CountingStrategy_constraints numbers b \<longrightarrow>
           \<bar>target - vals m 5\<bar> \<le> \<bar>target - vals b 5\<bar>) \<and>
        (\<bar>target - vals m 5\<bar> = 0 \<longrightarrow>
           (\<forall>b :: assignment.
              CountingStrategy_constraints numbers b \<and> \<bar>target - vals b 5\<bar> = 0 \<longrightarrow>
              usedCount m \<le> usedCount b))) \<and>
     (CountingStrategy_constraints numbers m \<and> \<bar>target - vals m 5\<bar> \<noteq> 0 \<and>
        (\<forall>b :: assignment. CountingStrategy_constraints numbers b \<longrightarrow>
           \<bar>target - vals m 5\<bar> \<le> \<bar>target - vals b 5\<bar>) \<longrightarrow>
        CountingStrategy_model numbers target m)"
proof -
  have ex: "\<exists>m. CountingStrategy_model numbers target m"
    by (rule CountingStrategy_model_exists)
  have iff: "CountingStrategy_model numbers target m \<longleftrightarrow>
     CountingStrategy_constraints numbers m \<and>
     (\<forall>b :: assignment. CountingStrategy_constraints numbers b \<longrightarrow>
        \<bar>target - vals m 5\<bar> \<le> \<bar>target - vals b 5\<bar>) \<and>
     (\<bar>target - vals m 5\<bar> = 0 \<longrightarrow>
        (\<forall>b :: assignment. CountingStrategy_constraints numbers b \<and> \<bar>target - vals b 5\<bar> = 0 \<longrightarrow>
           usedCount m \<le> usedCount b))"
    unfolding CountingStrategy_model_iff dist_to_target_abs usedCount_eq ..
  from ex iff show ?thesis by blast
qed

text \<open>
  Claim C1 at four inputs. On the pool 1, 3, 5, 8, 10, 50 with target 51, the sum 1 + 50 is a
  model, of distance 0 with two executed steps (no single entry is 51), and picking 50 alone,
  at distance 1, satisfies the constraints but is no model. On the pool of six ones with
  target 100, adding all six is a model, at the distance 94. On the pool of six zeros with
  target 5, where every assignment is at the distance 5, picking one entry and adding two
  entries are both models, with one and with two executed steps.
\<close>

theorem solve_optimal_witness:
  "length [1, 3, 5, 8, 10, 50 :: int] = 6 \<and>
   CountingStrategy_model [1, 3, 5, 8, 10, 50] 51 demo_sum51 \<and>
   \<bar>51 - vals demo_sum51 5\<bar> = 0 \<and> usedCount demo_sum51 = 2 \<and>
   CountingStrategy_constraints [1, 3, 5, 8, 10, 50] (pick_only [1, 3, 5, 8, 10, 50] 5) \<and>
   \<not> CountingStrategy_model [1, 3, 5, 8, 10, 50] 51 (pick_only [1, 3, 5, 8, 10, 50] 5) \<and>
   length [1, 1, 1, 1, 1, 1 :: int] = 6 \<and>
   CountingStrategy_model [1, 1, 1, 1, 1, 1] 100 demo_ones \<and>
   \<bar>100 - vals demo_ones 5\<bar> = 94 \<and> usedCount demo_ones = 6 \<and>
   length [0, 0, 0, 0, 0, 0 :: int] = 6 \<and>
   CountingStrategy_model [0, 0, 0, 0, 0, 0] 5 (pick_only [0, 0, 0, 0, 0, 0] 0) \<and>
   usedCount (pick_only [0, 0, 0, 0, 0, 0] 0) = 1 \<and>
   CountingStrategy_model [0, 0, 0, 0, 0, 0] 5 demo_zero_add \<and>
   usedCount demo_zero_add = 2"
proof -
  let ?n = "[1, 3, 5, 8, 10, 50 :: int]"
  let ?o = "[1, 1, 1, 1, 1, 1 :: int]"
  let ?z = "[0, 0, 0, 0, 0, 0 :: int]"
  have d51: "\<bar>51 - vals demo_sum51 5\<bar> = 0" by (simp add: demo_sum51_def)
  have u51: "usedCount demo_sum51 = 2" by code_simp
  have g51: "2 \<le> used_count b"
    if "CountingStrategy_constraints ?n b" "\<bar>51 - vals b 5\<bar> = 0" for b :: assignment
    using that by (rule no_single_51)
  have m51: "CountingStrategy_model ?n 51 demo_sum51"
    unfolding CountingStrategy_model_iff dist_to_target_abs
    using demo_sum51_constraints d51 u51 g51 by (simp add: usedCount_eq)
  have c50: "CountingStrategy_constraints ?n (pick_only ?n 5)"
    by (rule pick_only_constraints) simp_all
  have d50: "\<bar>51 - vals (pick_only ?n 5) 5\<bar> = 1" by code_simp
  have n50: "\<not> CountingStrategy_model ?n 51 (pick_only ?n 5)"
  proof
    assume "CountingStrategy_model ?n 51 (pick_only ?n 5)"
    with solve_optimal[of ?n 51 "pick_only ?n 5"] demo_sum51_constraints
    have "\<bar>51 - vals (pick_only ?n 5) 5\<bar> \<le> \<bar>51 - vals demo_sum51 5\<bar>" by simp
    with d50 d51 show False by simp
  qed
  have do: "\<bar>100 - vals demo_ones 5\<bar> = 94" by (simp add: demo_ones_def)
  have uo: "usedCount demo_ones = 6" by code_simp
  have lo: "\<bar>100 - vals demo_ones 5\<bar> \<le> \<bar>100 - vals b 5\<bar>"
    if "CountingStrategy_constraints ?o b" for b :: assignment
    using ones_bound[OF that, of 5] do by simp
  have mo: "CountingStrategy_model ?o 100 demo_ones"
    using solve_optimal[of ?o 100 demo_ones] demo_ones_constraints do lo by simp
  have cz: "CountingStrategy_constraints ?z (pick_only ?z 0)"
    by (rule pick_only_constraints) simp_all
  have dz: "\<bar>5 - vals b 5\<bar> = 5" if "CountingStrategy_constraints ?z b" for b :: assignment
    using zeros_vals[OF that, of 5] by simp
  have mz1: "CountingStrategy_model ?z 5 (pick_only ?z 0)"
    using solve_optimal[of ?z 5 "pick_only ?z 0"] cz dz by simp
  have mz2: "CountingStrategy_model ?z 5 demo_zero_add"
    using solve_optimal[of ?z 5 demo_zero_add] demo_zero_add_constraints dz by simp
  have uz1: "usedCount (pick_only ?z 0) = 1" by code_simp
  have uz2: "usedCount demo_zero_add = 2" by code_simp
  from m51 d51 u51 c50 n50 mo do uo mz1 uz1 mz2 uz2 show ?thesis by simp
qed

section \<open>The resilient optimum\<close>

lemma pick_add_constraints:
  "CountingStrategyResilient_constraints numbers target (pick_add numbers target)"
proof -
  let ?a = "pick_add numbers target"
  let ?f = "\<lambda>attack. Abs (target - (Select (numbers_arr numbers) 0 + attack))"
  have code: "last_op_code ?a = 0" and pre: "pre_last_val ?a = Select (numbers_arr numbers) 0"
    by (simp_all add: pick_add_def Let_def last_op_code_def pre_last_val_def Select_def
        ops_arr_eq vals_arr_eq)
  have legal: "legal_attack ?a attack" for attack
    by (simp add: legal_attack_def code)
  have "c_initial numbers ?a" by (simp add: c_initial_def pick_add_def Let_def)
  moreover have "c_ids ?a" by (simp add: c_ids_def pick_add_def Let_def)
  moreover have "c_ops ?a" by (simp add: c_ops_def pick_add_def Let_def)
  moreover have "c_prefix ?a" by (auto simp: c_prefix_def pick_add_def Let_def)
  moreover have "c_unique ?a" by (auto simp: c_unique_def pick_add_def Let_def)
  moreover have "c_transition numbers ?a"
    by (auto simp: c_transition_def pick_add_def Let_def apply_c_def)
  moreover have "c_last_op ?a"
    by (simp add: c_last_op_def cases_c_def pick_add_def Let_def upt_rec)
  moreover have "c_step0 ?a" "c_step1 ?a" "c_last_op_range ?a"
    by (simp_all add: c_step0_def c_step1_def c_last_op_range_def pick_add_def Let_def)
  moreover have "c_attacks target ?a"
    unfolding c_attacks_def using legal
    by (simp add: code pre apply_c_def) (simp add: pick_add_def Let_def)
  moreover have "c_worst ?a"
  proof -
    have w: "worst_dist ?a = Max (?f ` {1..10})" by (simp add: pick_add_def Let_def)
    have d: "att_dist ?a attack = ?f attack" for attack by (simp add: pick_add_def Let_def)
    have fin: "finite (?f ` {1..10})" by simp
    have ne: "?f ` {1..10} \<noteq> {}" by simp
    have "Max (?f ` {1..10}) \<in> ?f ` {1..10}" using Max_in[OF fin ne] .
    then obtain x where "x \<in> {1..10}" "Max (?f ` {1..10}) = ?f x" by blast
    moreover have "?f y \<le> Max (?f ` {1..10})" if "y \<in> {1..10}" for y
      using Max_ge[OF fin] that by blast
    ultimately show ?thesis
      unfolding c_worst_def w using legal d by (metis set_upto)
  qed
  ultimately show ?thesis by (simp add: CountingStrategyResilient_constraints_def)
qed

lemma CountingStrategyResilient_sat_always: "CountingStrategyResilient_sat numbers target"
  unfolding CountingStrategyResilient_sat_def using pick_add_constraints by blast

lemma CountingStrategyResilient_model_exists:
  "\<exists>m. CountingStrategyResilient_model numbers target m"
  unfolding CountingStrategyResilient_model_def
proof (rule lex_minimal_exists)
  show "CountingStrategyResilient_constraints numbers target (pick_add numbers target)"
    by (rule pick_add_constraints)
next
  fix b :: resilient_assignment
  assume "CountingStrategyResilient_constraints numbers target b"
  then show "0 \<le> worst_dist b" using worst_dist_nonneg resilient_parts(1,2) by blast
next
  fix b :: resilient_assignment
  show "0 \<le> second_objective_resilient b" by (rule second_objective_resilient_nonneg)
qed

lemma resilient_used_count_ge2:
  "CountingStrategyResilient_constraints numbers target b \<Longrightarrow> 2 \<le> used_count b"
  using used_count_ge2 resilient_parts(7,8) by blast

lemma resilient_worst_dist_nonneg:
  "CountingStrategyResilient_constraints numbers target b \<Longrightarrow> 0 \<le> worst_dist b"
  using worst_dist_nonneg resilient_parts(1,2) by blast

lemma resilient_model_intro:
  assumes "CountingStrategyResilient_constraints numbers target m"
    and "worst_dist m = 0" and "used_count m = 2"
  shows "CountingStrategyResilient_model numbers target m"
proof -
  have g: "2 \<le> used_count b" if "CountingStrategyResilient_constraints numbers target b"
    for b :: resilient_assignment
    using that by (rule resilient_used_count_ge2)
  have n: "0 \<le> worst_dist b" if "CountingStrategyResilient_constraints numbers target b"
    for b :: resilient_assignment
    using that by (rule resilient_worst_dist_nonneg)
  show ?thesis
    unfolding CountingStrategyResilient_model_iff using assms g n by simp
qed

lemma demo_exact_constraints:
  "CountingStrategyResilient_constraints [1, 1, 2, 3, 4, 5] 1 demo_exact"
  by code_simp

lemma worstDist_eq:
  "CountingStrategyResilient_constraints numbers target a \<Longrightarrow> worstDist target a = worst_dist a"
  using worst_dist_is_max resilient_parts(1,2) unfolding worstDist_def by metis

lemma attack_bounds_worst_dist:
  assumes "CountingStrategyResilient_constraints numbers target b"
    and "attack \<in> {1..10}" and "legal_attack b attack"
  shows "attack_dist target b attack \<le> worst_dist b"
proof -
  note p = resilient_parts[OF assms(1)]
  have "att_dist b attack \<le> worst_dist b" using p(2) assms(2) by (simp add: c_worst_def)
  then show ?thesis using att_dist_legal[OF p(1) assms(2,3)] by simp
qed

lemma ones_worst_bound:
  assumes c: "CountingStrategyResilient_constraints [1, 1, 1, 1, 1, 1] 100 b"
  shows "94 \<le> worst_dist b"
proof -
  note p = resilient_parts[OF c]
  from last_op_is_last[OF p(3,4)] have L: "1 \<le> last_op b" "last_op b \<le> 5" by simp_all
  have "nat (last_op b) - 1 < 6" using L by simp
  from ones_bound[OF resilient_contains_plain[OF c] this]
  have pre: "pre_last_val b \<le> 5" using pre_last_val_eq(1)[OF L] L by simp
  have "apply_result (last_op_code b) (pre_last_val b) 1 \<le> pre_last_val b + 1"
    by (simp add: apply_result_def)
  with pre have "94 \<le> attack_dist 100 b 1" by (simp add: attack_dist_def)
  moreover have "attack_dist 100 b 1 \<le> worst_dist b"
    by (rule attack_bounds_worst_dist[OF c]) (simp_all add: legal_attack_1)
  ultimately show ?thesis by simp
qed

lemma zeros_worst_bound:
  assumes c: "CountingStrategyResilient_constraints [0, 0, 0, 0, 0, 0] 5 b"
  shows "5 \<le> worst_dist b"
proof -
  note p = resilient_parts[OF c]
  let ?L = "nat (last_op b)"
  from last_op_is_last[OF p(3,4)] have L: "1 \<le> last_op b" "last_op b \<le> 5" "steps b ?L"
    by simp_all
  have plain: "CountingStrategy_constraints [0, 0, 0, 0, 0, 0] b"
    by (rule resilient_contains_plain[OF c])
  have "?L - 1 < 6" using L by simp
  from zeros_vals[OF plain this] have pre: "pre_last_val b = 0"
    using pre_last_val_eq(1)[OF L(1,2)] by simp
  have Lin: "?L \<in> set [1..<6]" using L(1,2) by auto
  have "?L < 6" using L by simp
  from zeros_entry[OF plain this]
  have "apply_c (ops b (?L - 1)) (vals b (?L - 1)) (vals b ?L) True 0"
    using p(6) Lin L(3) unfolding c_transition_def by (metis (full_types))
  then have "ops b (?L - 1) = 0 \<or> ops b (?L - 1) = 1 \<or> ops b (?L - 1) = 2"
    by (simp add: apply_c_def split: if_splits)
  then have code: "last_op_code b = 0 \<or> last_op_code b = 1 \<or> last_op_code b = 2"
    using pre_last_val_eq(2)[OF L(1,2)] by simp
  then have legal: "legal_attack b 10" by (auto simp: legal_attack_def)
  have "5 \<le> attack_dist 5 b 10"
    using code pre by (auto simp: attack_dist_def apply_result_def)
  moreover have "attack_dist 5 b 10 \<le> worst_dist b"
    by (rule attack_bounds_worst_dist[OF c _ legal]) simp
  ultimately show ?thesis by simp
qed

lemma demo_ones_resilient_constraints:
  "CountingStrategyResilient_constraints [1, 1, 1, 1, 1, 1] 100 demo_ones_resilient"
  by code_simp

lemma demo_zero_add_resilient_constraints:
  "CountingStrategyResilient_constraints [0, 0, 0, 0, 0, 0] 5 demo_zero_add_resilient"
  by code_simp

lemma demo_zero_add2_resilient_constraints:
  "CountingStrategyResilient_constraints [0, 0, 0, 0, 0, 0] 5 demo_zero_add2_resilient"
  by code_simp

text \<open>
  Claim C2. For every pool of six integers and every target, \<open>CountingStrategyResilient\<close>
  has a model to return. A returned model satisfies the resilient constraints, so its step 1 is
  executed; its worst distance over the legal attacks is less than or equal to that of every
  assignment that satisfies the resilient constraints, and when that worst distance is 0, its
  number of executed steps is less than or equal to the number of executed steps of every
  satisfying assignment of worst distance 0. When the minimal worst distance is not 0, every
  satisfying assignment of minimal worst distance is a model that may be returned, whatever
  its number of executed steps.
\<close>

theorem solveResilient_optimal:
  assumes "length numbers = 6"
  shows "(\<exists>m. CountingStrategyResilient_model numbers target m) \<and>
     (CountingStrategyResilient_model numbers target m \<longrightarrow>
        CountingStrategyResilient_constraints numbers target m \<and> steps m 1 \<and>
        (\<forall>b :: resilient_assignment. CountingStrategyResilient_constraints numbers target b \<longrightarrow>
           worstDist target m \<le> worstDist target b) \<and>
        (worstDist target m = 0 \<longrightarrow>
           (\<forall>b :: resilient_assignment.
              CountingStrategyResilient_constraints numbers target b \<and> worstDist target b = 0 \<longrightarrow>
              usedCount m \<le> usedCount b))) \<and>
     (CountingStrategyResilient_constraints numbers target m \<and> worstDist target m \<noteq> 0 \<and>
        (\<forall>b :: resilient_assignment. CountingStrategyResilient_constraints numbers target b \<longrightarrow>
           worstDist target m \<le> worstDist target b) \<longrightarrow>
        CountingStrategyResilient_model numbers target m)"
proof -
  have ex: "\<exists>m. CountingStrategyResilient_model numbers target m"
    by (rule CountingStrategyResilient_model_exists)
  have eq: "worst_dist b = worstDist target b"
    if "CountingStrategyResilient_constraints numbers target b" for b :: resilient_assignment
    using worstDist_eq[OF that] by simp
  have s1: "steps m 1" if "CountingStrategyResilient_constraints numbers target m"
    using resilient_parts(8)[OF that] by (simp add: c_step1_def)
  have fwd: "CountingStrategyResilient_constraints numbers target m \<and>
      (\<forall>b :: resilient_assignment. CountingStrategyResilient_constraints numbers target b \<longrightarrow>
         worstDist target m \<le> worstDist target b) \<and>
      (worstDist target m = 0 \<longrightarrow>
         (\<forall>b :: resilient_assignment.
            CountingStrategyResilient_constraints numbers target b \<and> worstDist target b = 0 \<longrightarrow>
            usedCount m \<le> usedCount b))"
    if m: "CountingStrategyResilient_model numbers target m"
  proof -
    from m have c: "CountingStrategyResilient_constraints numbers target m"
      and le: "\<And>b :: resilient_assignment.
          CountingStrategyResilient_constraints numbers target b \<Longrightarrow> worst_dist m \<le> worst_dist b"
      and u: "\<And>b :: resilient_assignment. worst_dist m = 0 \<Longrightarrow>
          CountingStrategyResilient_constraints numbers target b \<Longrightarrow> worst_dist b = 0 \<Longrightarrow>
          used_count m \<le> used_count b"
      unfolding CountingStrategyResilient_model_iff by blast+
    have "worstDist target m \<le> worstDist target b"
      if "CountingStrategyResilient_constraints numbers target b" for b :: resilient_assignment
      using le[OF that] eq[OF that] eq[OF c] by simp
    moreover have "usedCount m \<le> usedCount b"
      if "worstDist target m = 0" "CountingStrategyResilient_constraints numbers target b"
        "worstDist target b = 0" for b :: resilient_assignment
      using u[of b] that eq[OF that(2)] eq[OF c] by (simp add: usedCount_eq)
    ultimately show ?thesis using c by blast
  qed
  have bwd: "CountingStrategyResilient_model numbers target m"
    if c: "CountingStrategyResilient_constraints numbers target m"
      and nz: "worstDist target m \<noteq> 0"
      and le: "\<forall>b :: resilient_assignment. CountingStrategyResilient_constraints numbers target b \<longrightarrow>
           worstDist target m \<le> worstDist target b"
  proof -
    have "worst_dist m \<le> worst_dist b"
      if "CountingStrategyResilient_constraints numbers target b" for b :: resilient_assignment
      using le that eq[OF that] eq[OF c] by simp
    moreover have "worst_dist m \<noteq> 0" using nz eq[OF c] by simp
    ultimately show ?thesis unfolding CountingStrategyResilient_model_iff using c by blast
  qed
  from ex fwd bwd s1 show ?thesis by blast
qed

text \<open>
  Claim C2 at three inputs. On the pool 1, 1, 2, 3, 4, 5 with target 1, dividing 1 by 1 is a
  model, of worst distance 0 with two executed steps. On the pool of six ones with target 100,
  adding all six is a model, at the worst distance 94 (the attack 1 on the last step), and
  adding two of them, at the worst distance 98, satisfies the constraints but is no model. On
  the pool of six zeros with target 5, where 5 is the least worst distance, adding two entries
  and adding three entries are both models, with two and with three executed steps.
\<close>

theorem solveResilient_optimal_witness:
  "length [1, 1, 2, 3, 4, 5 :: int] = 6 \<and>
   CountingStrategyResilient_model [1, 1, 2, 3, 4, 5] 1 demo_exact \<and>
   worstDist 1 demo_exact = 0 \<and> usedCount demo_exact = 2 \<and>
   length [1, 1, 1, 1, 1, 1 :: int] = 6 \<and>
   CountingStrategyResilient_model [1, 1, 1, 1, 1, 1] 100 demo_ones_resilient \<and>
   worstDist 100 demo_ones_resilient = 94 \<and> usedCount demo_ones_resilient = 6 \<and>
   CountingStrategyResilient_constraints [1, 1, 1, 1, 1, 1] 100 (pick_add [1, 1, 1, 1, 1, 1] 100) \<and>
   worstDist 100 (pick_add [1, 1, 1, 1, 1, 1] 100) = 98 \<and>
   \<not> CountingStrategyResilient_model [1, 1, 1, 1, 1, 1] 100 (pick_add [1, 1, 1, 1, 1, 1] 100) \<and>
   length [0, 0, 0, 0, 0, 0 :: int] = 6 \<and>
   CountingStrategyResilient_model [0, 0, 0, 0, 0, 0] 5 demo_zero_add_resilient \<and>
   usedCount demo_zero_add_resilient = 2 \<and>
   CountingStrategyResilient_model [0, 0, 0, 0, 0, 0] 5 demo_zero_add2_resilient \<and>
   usedCount demo_zero_add2_resilient = 3"
proof -
  let ?e = "[1, 1, 2, 3, 4, 5 :: int]"
  let ?o = "[1, 1, 1, 1, 1, 1 :: int]"
  let ?z = "[0, 0, 0, 0, 0, 0 :: int]"
  have we: "worstDist 1 demo_exact = 0"
    using worstDist_eq[OF demo_exact_constraints] by (simp add: demo_exact_def)
  have ue: "usedCount demo_exact = 2" by code_simp
  have me: "CountingStrategyResilient_model ?e 1 demo_exact"
    by (rule resilient_model_intro[OF demo_exact_constraints])
      (simp add: demo_exact_def, simp add: ue[unfolded usedCount_eq])
  have wo: "worstDist 100 demo_ones_resilient = 94"
    using worstDist_eq[OF demo_ones_resilient_constraints] by (simp add: demo_ones_resilient_def)
  have uo: "usedCount demo_ones_resilient = 6" by code_simp
  have lo: "worstDist 100 demo_ones_resilient \<le> worstDist 100 b"
    if "CountingStrategyResilient_constraints ?o 100 b" for b :: resilient_assignment
    using ones_worst_bound[OF that] worstDist_eq[OF that] wo by simp
  have mo: "CountingStrategyResilient_model ?o 100 demo_ones_resilient"
    using solveResilient_optimal[of ?o 100 demo_ones_resilient]
      demo_ones_resilient_constraints wo lo by simp
  have cp: "CountingStrategyResilient_constraints ?o 100 (pick_add ?o 100)"
    by (rule pick_add_constraints)
  have "worst_dist (pick_add ?o 100) = 98" by code_simp
  then have wp: "worstDist 100 (pick_add ?o 100) = 98" using worstDist_eq[OF cp] by simp
  have np: "\<not> CountingStrategyResilient_model ?o 100 (pick_add ?o 100)"
  proof
    assume "CountingStrategyResilient_model ?o 100 (pick_add ?o 100)"
    with solveResilient_optimal[of ?o 100 "pick_add ?o 100"] demo_ones_resilient_constraints
    have "worstDist 100 (pick_add ?o 100) \<le> worstDist 100 demo_ones_resilient" by simp
    with wp wo show False by simp
  qed
  have wz: "worstDist 5 b = 5" if "CountingStrategyResilient_constraints ?z 5 b" "worst_dist b = 5"
    for b :: resilient_assignment
    using worstDist_eq[OF that(1)] that(2) by simp
  have lz: "5 \<le> worstDist 5 b"
    if "CountingStrategyResilient_constraints ?z 5 b" for b :: resilient_assignment
    using zeros_worst_bound[OF that] worstDist_eq[OF that] by simp
  have w1: "worstDist 5 demo_zero_add_resilient = 5"
    by (rule wz[OF demo_zero_add_resilient_constraints]) (simp add: demo_zero_add_resilient_def)
  have w2: "worstDist 5 demo_zero_add2_resilient = 5"
    by (rule wz[OF demo_zero_add2_resilient_constraints]) (simp add: demo_zero_add2_resilient_def)
  have mz1: "CountingStrategyResilient_model ?z 5 demo_zero_add_resilient"
    using solveResilient_optimal[of ?z 5 demo_zero_add_resilient]
      demo_zero_add_resilient_constraints w1 lz by simp
  have mz2: "CountingStrategyResilient_model ?z 5 demo_zero_add2_resilient"
    using solveResilient_optimal[of ?z 5 demo_zero_add2_resilient]
      demo_zero_add2_resilient_constraints w2 lz by simp
  have uz1: "usedCount demo_zero_add_resilient = 2" by code_simp
  have uz2: "usedCount demo_zero_add2_resilient = 3" by code_simp
  from me we ue mo wo uo cp wp np mz1 uz1 mz2 uz2 show ?thesis by simp
qed

lemma demo_minus_one_constraints:
  "CountingStrategyResilient_constraints [1, - 1, 0, 0, 0, 0] 1 demo_minus_one"
  by code_simp

text \<open>
  Claim C4 fails as stated. For the pool 1, -1, 0, 0, 0, 0 and the target 1, dividing 1 by
  -1 satisfies the resilient constraints and is a model the optimiser may return: the only
  legal attack is 1, which gives 1 / 1 = 1, so \<open>worst_dist\<close> is 0, while the unattacked
  outcome -1 is at distance 2 from the target.
\<close>

theorem worst_dist_below_distance:
  "CountingStrategyResilient_constraints [1, - 1, 0, 0, 0, 0] 1 demo_minus_one \<and>
   CountingStrategyResilient_model [1, - 1, 0, 0, 0, 0] 1 demo_minus_one \<and>
   worst_dist demo_minus_one = 0 \<and> dist_to_target 1 demo_minus_one = 2 \<and>
   \<not> dist_to_target 1 demo_minus_one \<le> worst_dist demo_minus_one"
proof -
  have w: "worst_dist demo_minus_one = 0" by (simp add: demo_minus_one_def)
  have u: "used_count demo_minus_one = 2" by code_simp
  have d: "dist_to_target 1 demo_minus_one = 2" by code_simp
  show ?thesis
    using demo_minus_one_constraints resilient_model_intro[OF demo_minus_one_constraints w u] w d
    by simp
qed

text \<open>
  Claim C4, amended. In every assignment that satisfies the resilient constraints and whose
  last executed step uses an operand that lies in 1..10 (so that the operand is itself one of
  the attacks), \<open>worst_dist\<close> is greater than or equal to the distance
  \<open>\<bar>target - value[5]\<bar>\<close>.
\<close>

theorem worst_dist_ge_distance_for_attackable_operand:
  assumes c: "CountingStrategyResilient_constraints numbers target a"
    and n: "Select (numbers_arr numbers) (ids a (nat (last_op a))) \<in> {1..10}"
  shows "dist_to_target target a \<le> worst_dist a"
proof -
  note p = resilient_parts[OF c]
  let ?L = "nat (last_op a)"
  let ?n = "Select (numbers_arr numbers) (ids a ?L)"
  from last_op_is_last[OF p(3,4)] have L: "1 \<le> last_op a" "last_op a \<le> 5"
      "steps a ?L" "\<forall>k < 6. steps a k \<longleftrightarrow> int k \<le> last_op a"
    by simp_all
  have Lin: "?L \<in> set [1..<6]" using L(1,2) by auto
  have step: "apply_c (ops a (?L - 1)) (vals a (?L - 1)) (vals a ?L) True ?n"
    using p(6) Lin L(3) unfolding c_transition_def by (metis (full_types))
  then have step': "apply_c (last_op_code a) (pre_last_val a) (vals a ?L) True ?n"
    using pre_last_val_eq[OF L(1,2)] by simp
  have legal: "legal_attack a ?n"
    using step' by (auto simp: legal_attack_def apply_c_def split: if_splits)
  have "apply_c (last_op_code a) (pre_last_val a) (att_res a ?n) True ?n"
    using p(1) n legal by (simp add: c_attacks_def)
  then have res: "att_res a ?n = vals a ?L" using step' by (rule apply_c_functional)
  have skipped: "\<not> steps a k" if "?L < k" "k < 6" for k
    using L(4) that by auto
  have "vals a 5 = vals a ?L"
    using vals_skipped[OF p(6) skipped, of ?L 5] L(2) by simp
  with res have "att_dist a ?n = dist_to_target target a"
    using p(1) n legal by (simp add: c_attacks_def dist_to_target_def)
  moreover have "att_dist a ?n \<le> worst_dist a" using p(2) n by (simp add: c_worst_def)
  ultimately show ?thesis by simp
qed

text \<open>
  Claim C4, amended, at the pool 1, 3, 5, 8, 10, 50 with target 5, on 50 / 10: the operand
  10 is an attack, and the distance 0 is below \<open>worst_dist\<close> = 45.
\<close>

theorem worst_dist_ge_distance_for_attackable_operand_witness:
  "CountingStrategyResilient_constraints [1, 3, 5, 8, 10, 50] 5 demo_divide_resilient \<and>
   Select (numbers_arr [1, 3, 5, 8, 10, 50])
     (ids demo_divide_resilient (nat (last_op demo_divide_resilient))) = 10 \<and>
   dist_to_target 5 demo_divide_resilient \<le> worst_dist demo_divide_resilient"
proof -
  have s: "Select (numbers_arr [1, 3, 5, 8, 10, 50])
     (ids demo_divide_resilient (nat (last_op demo_divide_resilient))) = 10" by code_simp
  then have "Select (numbers_arr [1, 3, 5, 8, 10, 50])
     (ids demo_divide_resilient (nat (last_op demo_divide_resilient))) \<in> {1..10}" by simp
  from worst_dist_ge_distance_for_attackable_operand[OF demo_divide_resilient_constraints this] s
    demo_divide_resilient_constraints
  show ?thesis by simp
qed

section \<open>Pools of any length\<close>

lemma CountingStrategy_prints:
  "CountingStrategy numbers target out \<longleftrightarrow>
     (\<exists>m. CountingStrategy_model numbers target m \<and> out = report numbers target m)"
proof
  assume "CountingStrategy numbers target out"
  then obtain answer where a: "CountingStrategy_answer numbers target answer"
      "out = print_report numbers target answer"
    unfolding CountingStrategy_def by blast
  then show "\<exists>m. CountingStrategy_model numbers target m \<and> out = report numbers target m"
    by (cases answer)
      (auto simp: CountingStrategy_answer_def print_report_def CountingStrategy_sat_always)
next
  assume "\<exists>m. CountingStrategy_model numbers target m \<and> out = report numbers target m"
  then obtain m where "CountingStrategy_model numbers target m" "out = report numbers target m"
    by blast
  then have "CountingStrategy_answer numbers target (Some m) \<and>
      out = print_report numbers target (Some m)"
    by (simp add: CountingStrategy_answer_def print_report_def)
  then show "CountingStrategy numbers target out" unfolding CountingStrategy_def by blast
qed

lemma CountingStrategyResilient_prints:
  "CountingStrategyResilient numbers target out \<longleftrightarrow>
     (\<exists>m. CountingStrategyResilient_model numbers target m \<and>
          out = report_resilient numbers target m)"
proof
  assume "CountingStrategyResilient numbers target out"
  then obtain answer where a: "CountingStrategyResilient_answer numbers target answer"
      "out = print_report_resilient numbers target answer"
    unfolding CountingStrategyResilient_def by blast
  then show "\<exists>m. CountingStrategyResilient_model numbers target m \<and>
      out = report_resilient numbers target m"
    by (cases answer)
      (auto simp: CountingStrategyResilient_answer_def print_report_resilient_def
        CountingStrategyResilient_sat_always)
next
  assume "\<exists>m. CountingStrategyResilient_model numbers target m \<and>
      out = report_resilient numbers target m"
  then obtain m where "CountingStrategyResilient_model numbers target m"
      "out = report_resilient numbers target m"
    by blast
  then have "CountingStrategyResilient_answer numbers target (Some m) \<and>
      out = print_report_resilient numbers target (Some m)"
    by (simp add: CountingStrategyResilient_answer_def print_report_resilient_def)
  then show "CountingStrategyResilient numbers target out"
    unfolding CountingStrategyResilient_def by blast
qed

lemma numbers_arr_pad6:
  "0 \<le> i \<Longrightarrow> i < 6 \<Longrightarrow> numbers_arr (pad6 numbers) i = numbers_arr numbers i"
  by (auto simp: numbers_arr_eq pad6_def nth_append)

lemma select_pad6:
  "c_ids a \<Longrightarrow> k < 6 \<Longrightarrow>
     Select (numbers_arr (pad6 numbers)) (ids a k) = Select (numbers_arr numbers) (ids a k)"
  by (simp add: Select_def c_ids_def numbers_arr_pad6)

lemma c_initial_pad6: "c_ids a \<Longrightarrow> c_initial (pad6 numbers) a = c_initial numbers a"
  by (simp add: c_initial_def select_pad6)

lemma c_transition_pad6: "c_ids a \<Longrightarrow> c_transition (pad6 numbers) a = c_transition numbers a"
  by (simp add: c_transition_def select_pad6)

lemma constraints_pad6:
  "CountingStrategy_constraints (pad6 numbers) a = CountingStrategy_constraints numbers a"
  using c_initial_pad6[of a numbers] c_transition_pad6[of a numbers]
  by (auto simp: CountingStrategy_constraints_def)

lemma resilient_constraints_pad6:
  "CountingStrategyResilient_constraints (pad6 numbers) target a =
   CountingStrategyResilient_constraints numbers target a"
  using c_initial_pad6[of a numbers] c_transition_pad6[of a numbers]
  by (auto simp: CountingStrategyResilient_constraints_def)

lemma model_pad6:
  "CountingStrategy_model (pad6 numbers) target m = CountingStrategy_model numbers target m"
  by (simp add: CountingStrategy_model_iff constraints_pad6)

lemma resilient_model_pad6:
  "CountingStrategyResilient_model (pad6 numbers) target m =
   CountingStrategyResilient_model numbers target m"
  by (simp add: CountingStrategyResilient_model_iff resilient_constraints_pad6)

lemma step_lines_pad6:
  "c_ids m \<Longrightarrow> set js \<subseteq> {0..<6} \<Longrightarrow>
     step_lines (pad6 numbers) m js = step_lines numbers m js"
  by (induction js) (auto simp: select_pad6 split: option.splits sum.splits)

lemma report_pad6:
  "c_ids m \<Longrightarrow> report (pad6 numbers) target m = report numbers target m"
  using step_lines_pad6[of m "[1..<6]" numbers] select_pad6[of m 0 numbers]
  by (auto simp: report_def split: sum.splits)

lemma report_resilient_pad6:
  "c_ids m \<Longrightarrow> report_resilient (pad6 numbers) target m = report_resilient numbers target m"
  by (simp add: report_resilient_def report_pad6)

lemma CountingStrategy_pad6:
  "CountingStrategy (pad6 numbers) target out = CountingStrategy numbers target out"
proof -
  have "report (pad6 numbers) target m = report numbers target m"
    if "CountingStrategy_model numbers target m" for m
    using that by (simp add: report_pad6 CountingStrategy_model_iff CountingStrategy_constraints_def)
  then show ?thesis
    by (auto simp: CountingStrategy_prints model_pad6)
qed

lemma CountingStrategyResilient_pad6:
  "CountingStrategyResilient (pad6 numbers) target out =
   CountingStrategyResilient numbers target out"
proof -
  have "report_resilient (pad6 numbers) target m = report_resilient numbers target m"
    if "CountingStrategyResilient_model numbers target m" for m
    using that
    by (simp add: report_resilient_pad6 CountingStrategyResilient_model_iff
        CountingStrategyResilient_constraints_def)
  then show ?thesis
    by (auto simp: CountingStrategyResilient_prints resilient_model_pad6)
qed

lemma OPERATION_IDS_defined: "0 \<le> k \<Longrightarrow> k < 4 \<Longrightarrow> \<exists>s. OPERATION_IDS k = Some s"
proof -
  assume "0 \<le> k" "k < 4"
  then have "k = 0 \<or> k = 1 \<or> k = 2 \<or> k = 3" by arith
  then show ?thesis by (auto simp: OPERATION_IDS_def)
qed

lemma step_lines_no_error:
  "c_ops m \<Longrightarrow> set js \<subseteq> {1..<6} \<Longrightarrow> \<exists>ls. step_lines numbers m js = Inr ls"
proof (induction js)
  case Nil
  then show ?case by simp
next
  case (Cons j js)
  then obtain ls where ls: "step_lines numbers m js = Inr ls" by auto
  from Cons.prems have "j - 1 \<in> set [0..<5]" by auto
  with Cons.prems(1) have "0 \<le> ops m (j - 1) \<and> ops m (j - 1) < 4"
    unfolding c_ops_def by blast
  then obtain s where "OPERATION_IDS (ops m (j - 1)) = Some s"
    using OPERATION_IDS_defined by blast
  with ls show ?case by simp
qed

lemma demo_single_prints:
  "CountingStrategy [7] 7
     (Inr [''Initial number : 7'', ''Final number : 7'', ''Distance from goal: 0''])"
proof -
  let ?m = "pick_only [7] 0"
  have c: "CountingStrategy_constraints [7] ?m" by (rule pick_only_constraints) simp_all
  have d: "dist_to_target 7 ?m = 0" by code_simp
  have u: "used_count ?m = 1" by code_simp
  have g: "1 \<le> used_count b" if "CountingStrategy_constraints [7] b" for b :: assignment
    using that used_count_ge1[of b] by (simp add: CountingStrategy_constraints_def)
  have n: "0 \<le> dist_to_target 7 b" for b :: assignment
    by (rule dist_to_target_nonneg)
  have m: "CountingStrategy_model [7] 7 ?m"
    unfolding CountingStrategy_model_iff using c d u g n by simp
  have r: "report [7] 7 ?m =
      Inr [''Initial number : 7'', ''Final number : 7'', ''Distance from goal: 0'']"
    by code_simp
  show ?thesis unfolding CountingStrategy_prints using m r by metis
qed

text \<open>
  Claim C6 fails as stated. A pool of one entry is not rejected: the constraints for the
  pool 7 have a model, and the call with target 7 prints a solution.
\<close>

theorem short_pool_not_rejected:
  "length [7 :: int] \<noteq> 6 \<and>
   CountingStrategy_sat [7] \<and>
   CountingStrategy [7] 7
     (Inr [''Initial number : 7'', ''Final number : 7'', ''Distance from goal: 0''])"
  using demo_single_prints CountingStrategy_sat_always[of "[7]"] by simp

lemma report_lines:
  "c_ops m \<Longrightarrow> \<exists>ls. report numbers target m = Inr ls \<and> 3 \<le> length ls"
  using step_lines_no_error[of m "[1..<6]" numbers] by (auto simp: report_def)

lemma report_resilient_lines:
  "c_ops m \<Longrightarrow> \<exists>ls. report_resilient numbers target m = Inr ls \<and> 4 \<le> length ls"
  using report_lines[of m numbers target] by (auto simp: report_resilient_def)

lemma demo_empty_prints:
  "CountingStrategy [] 0
     (Inr [''Initial number : 0'', ''Final number : 0'', ''Distance from goal: 0''])"
proof -
  let ?m = "pick_only [] 0"
  have c: "CountingStrategy_constraints [] ?m" by (rule pick_only_constraints) simp_all
  have d: "dist_to_target 0 ?m = 0" by code_simp
  have u: "used_count ?m = 1" by code_simp
  have g: "1 \<le> used_count b" if "CountingStrategy_constraints [] b" for b :: assignment
    using that used_count_ge1[of b] by (simp add: CountingStrategy_constraints_def)
  have n: "0 \<le> dist_to_target 0 b" for b :: assignment
    by (rule dist_to_target_nonneg)
  have m: "CountingStrategy_model [] 0 ?m"
    unfolding CountingStrategy_model_iff using c d u g n by simp
  have r: "report [] 0 ?m =
      Inr [''Initial number : 0'', ''Final number : 0'', ''Distance from goal: 0'']"
    by code_simp
  show ?thesis unfolding CountingStrategy_prints using m r by metis
qed

text \<open>
  Claim C6, amended. Neither solver rejects a pool whose length is not 6: there is no check
  of the length. A pool of any length is solved as its first six entries, missing entries
  reading as 0 (the default of the array the pool is stored in): both solvers print for a pool
  what they print for the padded pool. The constraints then always have a model, so the
  solver's answer is never the answer without a model, and what a call prints is the report of
  a returned model: at least three lines (four in the resilient solver), without a
  \<open>KeyError\<close>. For an answer without a model the code prints nothing, which no report of a
  model equals; it puts no solution in its place.
\<close>

theorem pool_of_any_length_is_solved:
  "(CountingStrategy numbers target out \<longleftrightarrow> CountingStrategy (pad6 numbers) target out) \<and>
   (CountingStrategyResilient numbers target out \<longleftrightarrow>
      CountingStrategyResilient (pad6 numbers) target out) \<and>
   (\<exists>m. CountingStrategy_answer numbers target (Some m)) \<and>
   \<not> CountingStrategy_answer numbers target None \<and>
   (\<exists>m. CountingStrategyResilient_answer numbers target (Some m)) \<and>
   \<not> CountingStrategyResilient_answer numbers target None \<and>
   print_report numbers target (None :: assignment option) = Inr [] \<and>
   print_report_resilient numbers target (None :: resilient_assignment option) = Inr [] \<and>
   (CountingStrategy numbers target out \<longrightarrow>
      (\<exists>m ls. CountingStrategy_model numbers target m \<and>
         out = print_report numbers target (Some m) \<and> out = Inr ls \<and> 3 \<le> length ls)) \<and>
   (CountingStrategyResilient numbers target out \<longrightarrow>
      (\<exists>m ls. CountingStrategyResilient_model numbers target m \<and>
         out = print_report_resilient numbers target (Some m) \<and> out = Inr ls \<and>
         4 \<le> length ls))"
proof -
  have p1: "CountingStrategy numbers target out \<longleftrightarrow> CountingStrategy (pad6 numbers) target out"
    by (simp only: CountingStrategy_pad6)
  have p2: "CountingStrategyResilient numbers target out \<longleftrightarrow>
      CountingStrategyResilient (pad6 numbers) target out"
    by (simp only: CountingStrategyResilient_pad6)
  have a1: "\<exists>m. CountingStrategy_answer numbers target (Some m)"
    using CountingStrategy_model_exists[of numbers target]
    by (simp add: CountingStrategy_answer_def)
  have n1: "\<not> CountingStrategy_answer numbers target None"
    by (simp add: CountingStrategy_answer_def CountingStrategy_sat_always)
  have a2: "\<exists>m. CountingStrategyResilient_answer numbers target (Some m)"
    using CountingStrategyResilient_model_exists[of numbers target]
    by (simp add: CountingStrategyResilient_answer_def)
  have n2: "\<not> CountingStrategyResilient_answer numbers target None"
    by (simp add: CountingStrategyResilient_answer_def CountingStrategyResilient_sat_always)
  have e1: "print_report numbers target (None :: assignment option) = Inr []"
    by (simp add: print_report_def)
  have e2: "print_report_resilient numbers target (None :: resilient_assignment option) = Inr []"
    by (simp add: print_report_resilient_def)
  have o1: "\<exists>ls. report numbers target m = Inr ls \<and> 3 \<le> length ls"
    if "CountingStrategy_model numbers target m" for m
    using that report_lines[of m numbers target]
    by (auto simp: CountingStrategy_model_iff CountingStrategy_constraints_def)
  have o2: "\<exists>ls. report_resilient numbers target m = Inr ls \<and> 4 \<le> length ls"
    if "CountingStrategyResilient_model numbers target m" for m
    using that report_resilient_lines[of m numbers target]
    by (auto simp: CountingStrategyResilient_model_iff CountingStrategyResilient_constraints_def)
  have r1: "CountingStrategy numbers target out \<longrightarrow>
      (\<exists>m ls. CountingStrategy_model numbers target m \<and>
         out = print_report numbers target (Some m) \<and> out = Inr ls \<and> 3 \<le> length ls)"
    unfolding CountingStrategy_prints using o1 by (auto simp: print_report_def)
  have r2: "CountingStrategyResilient numbers target out \<longrightarrow>
      (\<exists>m ls. CountingStrategyResilient_model numbers target m \<and>
         out = print_report_resilient numbers target (Some m) \<and> out = Inr ls \<and>
         4 \<le> length ls)"
    unfolding CountingStrategyResilient_prints using o2
    by (auto simp: print_report_resilient_def)
  from p1 p2 a1 n1 a2 n2 e1 e2 r1 r2 show ?thesis by blast
qed

text \<open>
  Claim C6, amended, at the pool 7 with target 7 and at the empty pool with target 0: the
  padded pools 7, 0, 0, 0, 0, 0 and 0, 0, 0, 0, 0, 0 print the same solutions; for the empty
  pool that is the solution that picks a missing entry, read as 0.
\<close>

theorem pool_of_any_length_is_solved_witness:
  "pad6 [7] = [7, 0, 0, 0, 0, 0] \<and>
   CountingStrategy [7, 0, 0, 0, 0, 0] 7
     (Inr [''Initial number : 7'', ''Final number : 7'', ''Distance from goal: 0'']) \<and>
   pad6 [] = [0, 0, 0, 0, 0, 0] \<and>
   CountingStrategy [] 0
     (Inr [''Initial number : 0'', ''Final number : 0'', ''Distance from goal: 0'']) \<and>
   CountingStrategy [0, 0, 0, 0, 0, 0] 0
     (Inr [''Initial number : 0'', ''Final number : 0'', ''Distance from goal: 0''])"
proof -
  have p: "pad6 [7] = [7, 0, 0, 0, 0, 0]" by code_simp
  have q: "pad6 [] = [0, 0, 0, 0, 0, 0]" by code_simp
  from pool_of_any_length_is_solved[of "[7]" 7
      "Inr [''Initial number : 7'', ''Final number : 7'', ''Distance from goal: 0'']"]
    demo_single_prints p
  have a: "CountingStrategy [7, 0, 0, 0, 0, 0] 7
     (Inr [''Initial number : 7'', ''Final number : 7'', ''Distance from goal: 0''])"
    by simp
  from pool_of_any_length_is_solved[of "[]" 0
      "Inr [''Initial number : 0'', ''Final number : 0'', ''Distance from goal: 0'']"]
    demo_empty_prints q
  have b: "CountingStrategy [0, 0, 0, 0, 0, 0] 0
     (Inr [''Initial number : 0'', ''Final number : 0'', ''Distance from goal: 0''])"
    by simp
  from p q a b demo_empty_prints show ?thesis by simp
qed

end
